theory Spec2Isabelle
  imports Complex_Main "HOL-Library.Word"
begin

section \<open>JavaScript values used by the program\<close>

subsection \<open>Numbers\<close>

text \<open>
  A JavaScript number is an IEEE 754 binary64 value.  The model keeps the three kinds of
  value the program can meet: \<open>NaN\<close>, the two infinities, and the finite values, carried
  as the rational they denote.  The two zeros are one value here: the program never
  divides by a zero and never inspects its sign, and both are written as the byte 0.

  Every arithmetic result goes through \<open>fl\<close>, rounding to the nearest binary64 value with
  ties to even: 53 significant bits, least exponent \<open>-1074\<close>, overflow to infinity from
  \<open>2 ^ 1024\<close> on.  \<open>round_binary p s e\<close> is that rounding for \<open>p\<close> significant bits: the
  magnitude is scaled by \<open>2 ^ s\<close>, so that the unit in the last place is \<open>2 ^ q\<close> with
  \<open>q\<close> a natural number, rounded to a multiple of the unit, and scaled back.
\<close>

datatype number = NaN | PosInf | NegInf | Fin rat

function bit_length :: "int \<Rightarrow> nat" where
  "bit_length n = (if n \<le> 0 then 0 else Suc (bit_length (n div 2)))"
  by pat_completeness auto
termination
  by (relation "measure nat") auto

declare bit_length.simps [simp del]

definition round_half_even :: "rat \<Rightarrow> int" where
  "round_half_even m =
     (let f = \<lfloor>m\<rfloor>; d = m - of_int f
      in if d < 1 / 2 then f
         else if 1 / 2 < d then f + 1
         else if even f then f else f + 1)"

definition round_binary :: "nat \<Rightarrow> nat \<Rightarrow> nat \<Rightarrow> rat \<Rightarrow> number" where
  "round_binary p s e x =
     (let a = \<bar>x\<bar> * 2 ^ s;
          q = bit_length \<lfloor>a\<rfloor> - p;
          n = round_half_even (a / 2 ^ q);
          r = of_int n * 2 ^ q / 2 ^ s
      in if 2 ^ e \<le> r then (if 0 < x then PosInf else NegInf)
         else Fin (if 0 < x then r else - r))"

definition fl :: "rat \<Rightarrow> number" where
  "fl x = round_binary 53 1074 1024 x"

text \<open>The operators \<open>+\<close>, \<open>*\<close> and \<open><\<close> on numbers, and \<open>/\<close> by a positive literal.\<close>

fun js_add :: "number \<Rightarrow> number \<Rightarrow> number" where
  "js_add NaN _ = NaN"
| "js_add _ NaN = NaN"
| "js_add PosInf NegInf = NaN"
| "js_add NegInf PosInf = NaN"
| "js_add PosInf _ = PosInf"
| "js_add _ PosInf = PosInf"
| "js_add NegInf _ = NegInf"
| "js_add _ NegInf = NegInf"
| "js_add (Fin x) (Fin y) = fl (x + y)"

definition inf_of_sign :: "bool \<Rightarrow> number" where
  "inf_of_sign positive = (if positive then PosInf else NegInf)"

fun js_mul :: "number \<Rightarrow> number \<Rightarrow> number" where
  "js_mul NaN _ = NaN"
| "js_mul _ NaN = NaN"
| "js_mul PosInf PosInf = PosInf"
| "js_mul PosInf NegInf = NegInf"
| "js_mul NegInf PosInf = NegInf"
| "js_mul NegInf NegInf = PosInf"
| "js_mul PosInf (Fin y) = (if y = 0 then NaN else inf_of_sign (0 < y))"
| "js_mul NegInf (Fin y) = (if y = 0 then NaN else inf_of_sign (y < 0))"
| "js_mul (Fin x) PosInf = (if x = 0 then NaN else inf_of_sign (0 < x))"
| "js_mul (Fin x) NegInf = (if x = 0 then NaN else inf_of_sign (x < 0))"
| "js_mul (Fin x) (Fin y) = fl (x * y)"

fun js_div_literal :: "number \<Rightarrow> nat \<Rightarrow> number" where
  "js_div_literal (Fin x) d = fl (x / of_nat d)"
| "js_div_literal v d = v"

fun js_less :: "number \<Rightarrow> number \<Rightarrow> bool" where
  "js_less NaN _ = False"
| "js_less _ NaN = False"
| "js_less _ NegInf = False"
| "js_less PosInf _ = False"
| "js_less NegInf _ = True"
| "js_less (Fin x) PosInf = True"
| "js_less (Fin x) (Fin y) = (x < y)"

fun isNaN :: "number \<Rightarrow> bool" where
  "isNaN NaN = True"
| "isNaN _ = False"

subsection \<open>Strings\<close>

text \<open>
  A JavaScript string is a sequence of 16-bit code units.  \<open>str\<close> turns an ASCII literal
  of the source into such a sequence.  White space is what \<open>String.prototype.trim\<close> and
  \<open>parseInt\<close> strip: the ECMAScript WhiteSpace and LineTerminator code points.
\<close>

type_synonym code_unit = "16 word"
type_synonym jsstring = "code_unit list"

definition str :: "string \<Rightarrow> jsstring" where
  "str s = map of_char s"

definition isWhiteSpace :: "code_unit \<Rightarrow> bool" where
  "isWhiteSpace c \<longleftrightarrow>
     c \<in> set [0x0009, 0x000A, 0x000B, 0x000C, 0x000D, 0x0020, 0x00A0, 0x1680,
              0x2000, 0x2001, 0x2002, 0x2003, 0x2004, 0x2005, 0x2006, 0x2007,
              0x2008, 0x2009, 0x200A, 0x2028, 0x2029, 0x202F, 0x205F, 0x3000, 0xFEFF]"

definition trimStart :: "jsstring \<Rightarrow> jsstring" where
  "trimStart s = dropWhile isWhiteSpace s"

definition trim :: "jsstring \<Rightarrow> jsstring" where
  "trim s = rev (dropWhile isWhiteSpace (rev (dropWhile isWhiteSpace s)))"

text \<open>\<open>s.split(sep)\<close> for a one-character separator: never an empty array.\<close>

fun split :: "code_unit \<Rightarrow> jsstring \<Rightarrow> jsstring list" where
  "split sep [] = [[]]"
| "split sep (c # cs) =
     (if c = sep then [] # split sep cs
      else case split sep cs of
             [] \<Rightarrow> [[c]]
           | seg # segs \<Rightarrow> (c # seg) # segs)"

text \<open>An array element read by index or by destructuring: \<open>undefined\<close> is \<open>None\<close>.\<close>

definition nth_opt :: "'a list \<Rightarrow> nat \<Rightarrow> 'a option" where
  "nth_opt xs i = (if i < length xs then Some (xs ! i) else None)"

definition ToString :: "jsstring option \<Rightarrow> jsstring" where
  "ToString v = (case v of None \<Rightarrow> str ''undefined'' | Some s \<Rightarrow> s)"

text \<open>
  \<open>parseInt(string, 10)\<close>: leading white space is skipped, one sign is accepted, the
  longest run of decimal digits is read, and the result is \<open>NaN\<close> when that run is empty.
  With radix 10 no \<open>0x\<close> prefix is recognised.  The integer read is converted to the
  nearest number, as the engine does for a run of digits of any length.
\<close>

definition isDigit :: "code_unit \<Rightarrow> bool" where
  "isDigit c \<longleftrightarrow> 0x30 \<le> c \<and> c \<le> 0x39"

definition mathInt :: "jsstring \<Rightarrow> int" where
  "mathInt Z = foldl (\<lambda>acc c. 10 * acc + (uint c - 0x30)) 0 Z"

definition parseInt :: "jsstring \<Rightarrow> number" where
  "parseInt inputString =
     (let S = trimStart inputString;
          sign = (case S of [] \<Rightarrow> 1 | c # _ \<Rightarrow> if c = 0x2D then - 1 else 1);
          S = (case S of [] \<Rightarrow> S | c # rest \<Rightarrow> if c = 0x2B \<or> c = 0x2D then rest else S);
          Z = takeWhile isDigit S
      in if Z = [] then NaN else fl (of_int (sign * mathInt Z)))"

section \<open>The MIME parser\<close>

text \<open>
  What the program can throw or reject with: the runtime's \<open>TypeError\<close> and range errors,
  an \<open>Error\<close> with the message of the source, and a failure reported by a collaborator
  (the service, the file system, the encoder), which the program passes on untouched.
\<close>

datatype error =
    TypeError
  | ERR_OUT_OF_RANGE
  | ERR_BUFFER_OUT_OF_BOUNDS
  | Error string
  | Rejected nat

record WavConversionOptions =
  numChannels :: number
  sampleRate :: number
  bitsPerSample :: number

text \<open>
  The body of the \<open>for (const param of params)\<close> loop of \<open>parseMimeType\<close>: the key is
  compared with \<open>'rate'\<close> and the value, possibly \<open>undefined\<close>, goes through \<open>parseInt\<close>.
\<close>

definition rate_step :: "WavConversionOptions \<Rightarrow> jsstring \<Rightarrow> WavConversionOptions" where
  "rate_step options param =
     (let kv = map trim (split 0x3D param);
          key = nth_opt kv 0;
          val = nth_opt kv 1
      in if key = Some (str ''rate'')
         then options\<lparr>sampleRate := parseInt (ToString val)\<rparr>
         else options)"

text \<open>
  \<open>parseMimeType\<close>.  Calling \<open>split\<close> on an \<open>undefined\<close> first segment would raise a
  TypeError; that branch is kept, so that the absence of failures is a theorem.
\<close>

definition parseMimeType :: "jsstring \<Rightarrow> error + WavConversionOptions" where
  "parseMimeType mimeType =
     (case map trim (split 0x3B mimeType) of
        [] \<Rightarrow> Inl TypeError
      | fileType # params \<Rightarrow>
          (let format = nth_opt (split 0x2F fileType) 1;
               options = \<lparr>numChannels = Fin 1, sampleRate = Fin 16000, bitsPerSample = Fin 16\<rparr>;
               options =
                 (case format of
                    None \<Rightarrow> options
                  | Some f \<Rightarrow>
                      if f \<noteq> [] \<and> take 1 f = str ''L''
                      then (let bits = parseInt (drop 1 f)
                            in if \<not> isNaN bits then options\<lparr>bitsPerSample := bits\<rparr>
                               else options)
                      else options)
           in Inr (foldl rate_step options params)))"

section \<open>Buffers\<close>

text \<open>
  A Node.js \<open>Buffer\<close> is a sequence of bytes of fixed length.  The methods below follow
  the runtime's own code (\<open>lib/internal/buffer.js\<close>; its documentation only says that the
  value must be a valid unsigned integer of the width): \<open>buf.write(string, offset)\<close>
  stores the bytes of an ASCII string and keeps the length of the buffer;
  \<open>writeUInt16LE\<close> and \<open>writeUInt32LE\<close> first check the value against the range of the
  width (\<open>value > max || value < min\<close>, a comparison that \<open>NaN\<close> passes) and raise
  \<open>ERR_OUT_OF_RANGE\<close> outside it, then store the low byte of the value and of its
  successive unsigned shifts by 8.  Storing a number in a byte array converts it with
  \<open>ToUint8\<close>, the shift \<open>>>>\<close> converts it with \<open>ToUint32\<close>: truncation towards zero,
  then reduction modulo the width, with 0 for \<open>NaN\<close> and the infinities.
\<close>

type_synonym byte = "8 word"
type_synonym Buffer = "byte list"

definition alloc :: "nat \<Rightarrow> Buffer" where
  "alloc n = replicate n 0"

definition js_trunc :: "rat \<Rightarrow> int" where
  "js_trunc x = (if 0 \<le> x then \<lfloor>x\<rfloor> else \<lceil>x\<rceil>)"

fun ToUint8 :: "number \<Rightarrow> byte" where
  "ToUint8 (Fin x) = word_of_int (js_trunc x)"
| "ToUint8 _ = 0"

fun ToUint32 :: "number \<Rightarrow> 32 word" where
  "ToUint32 (Fin x) = word_of_int (js_trunc x)"
| "ToUint32 _ = 0"

definition Buffer_write :: "Buffer \<Rightarrow> string \<Rightarrow> nat \<Rightarrow> error + Buffer" where
  "Buffer_write buf s offset =
     (if length buf < offset then Inl ERR_OUT_OF_RANGE
      else Inr (take (length buf)
                  (take offset buf @ map of_char s @ drop (offset + length s) buf)))"

text \<open>
  \<open>checkInt(value, min, max, buf, offset, byteLength)\<close>, with \<open>byteLength\<close> one less than
  the width: the value is compared first; then the first and the last byte to be written
  must exist, and a write that does not fit raises \<open>ERR_BUFFER_OUT_OF_BOUNDS\<close> when the
  buffer is shorter than the width and \<open>ERR_OUT_OF_RANGE\<close> on the offset otherwise.
\<close>

definition checkInt :: "number \<Rightarrow> number \<Rightarrow> number \<Rightarrow> Buffer \<Rightarrow> nat \<Rightarrow> nat \<Rightarrow> error option" where
  "checkInt v lo hi buf offset byteLength =
     (if js_less hi v \<or> js_less v lo then Some ERR_OUT_OF_RANGE
      else if length buf \<le> offset + byteLength
      then (if length buf < byteLength + 1 then Some ERR_BUFFER_OUT_OF_BOUNDS
            else Some ERR_OUT_OF_RANGE)
      else None)"

definition writeU_Int16LE :: "Buffer \<Rightarrow> number \<Rightarrow> nat \<Rightarrow> number \<Rightarrow> number \<Rightarrow> error + Buffer" where
  "writeU_Int16LE buf v offset lo hi =
     (case checkInt v lo hi buf offset 1 of
        Some err \<Rightarrow> Inl err
      | None \<Rightarrow>
          Inr (buf[offset := ToUint8 v,
                   offset + 1 := ucast (drop_bit 8 (ToUint32 v))]))"

definition writeU_Int32LE :: "Buffer \<Rightarrow> number \<Rightarrow> nat \<Rightarrow> number \<Rightarrow> number \<Rightarrow> error + Buffer" where
  "writeU_Int32LE buf v offset lo hi =
     (case checkInt v lo hi buf offset 3 of
        Some err \<Rightarrow> Inl err
      | None \<Rightarrow>
          (let v1 = drop_bit 8 (ToUint32 v);
               v2 = drop_bit 8 v1;
               v3 = drop_bit 8 v2
           in Inr (buf[offset := ToUint8 v,
                       offset + 1 := ucast v1,
                       offset + 2 := ucast v2,
                       offset + 3 := ucast v3])))"

definition writeUInt16LE :: "Buffer \<Rightarrow> number \<Rightarrow> nat \<Rightarrow> error + Buffer" where
  "writeUInt16LE buf v offset = writeU_Int16LE buf v offset (Fin 0) (Fin 0xFFFF)"

definition writeUInt32LE :: "Buffer \<Rightarrow> number \<Rightarrow> nat \<Rightarrow> error + Buffer" where
  "writeUInt32LE buf v offset = writeU_Int32LE buf v offset (Fin 0) (Fin 0xFFFFFFFF)"

definition Buffer_concat :: "Buffer list \<Rightarrow> Buffer" where
  "Buffer_concat bufs = concat bufs"

text \<open>The length of a buffer as a number; buffers are shorter than \<open>2 ^ 53\<close> bytes.\<close>

definition Buffer_length :: "Buffer \<Rightarrow> number" where
  "Buffer_length buf = Fin (of_nat (length buf))"

section \<open>The WAV header and the container\<close>

text \<open>A statement that may raise, followed by the rest of the function body.\<close>

definition attempt :: "error + 'a \<Rightarrow> ('a \<Rightarrow> error + 'b) \<Rightarrow> error + 'b" where
  "attempt m f = (case m of Inl err \<Rightarrow> Inl err | Inr x \<Rightarrow> f x)"

definition createWavHeader :: "number \<Rightarrow> WavConversionOptions \<Rightarrow> error + Buffer" where
  "createWavHeader dataLength options =
     (let byteRate =
            js_div_literal
              (js_mul (js_mul (sampleRate options) (numChannels options)) (bitsPerSample options)) 8;
          blockAlign = js_div_literal (js_mul (numChannels options) (bitsPerSample options)) 8;
          buffer = alloc 44
      in attempt (Buffer_write buffer ''RIFF'' 0) (\<lambda>buffer.
         attempt (writeUInt32LE buffer (js_add (Fin 36) dataLength) 4) (\<lambda>buffer.
         attempt (Buffer_write buffer ''WAVE'' 8) (\<lambda>buffer.
         attempt (Buffer_write buffer ''fmt '' 12) (\<lambda>buffer.
         attempt (writeUInt32LE buffer (Fin 16) 16) (\<lambda>buffer.
         attempt (writeUInt16LE buffer (Fin 1) 20) (\<lambda>buffer.
         attempt (writeUInt16LE buffer (numChannels options) 22) (\<lambda>buffer.
         attempt (writeUInt32LE buffer (sampleRate options) 24) (\<lambda>buffer.
         attempt (writeUInt32LE buffer byteRate 28) (\<lambda>buffer.
         attempt (writeUInt16LE buffer blockAlign 32) (\<lambda>buffer.
         attempt (writeUInt16LE buffer (bitsPerSample options) 34) (\<lambda>buffer.
         attempt (Buffer_write buffer ''data'' 36) (\<lambda>buffer.
         attempt (writeUInt32LE buffer dataLength 40) (\<lambda>buffer.
         Inr buffer))))))))))))))"

text \<open>
  \<open>convertToWav\<close>.  The base64 decoder of the runtime, \<open>Buffer.from(rawData, 'base64')\<close>,
  is a parameter: it never raises, and the container does not depend on how it decodes.
\<close>

definition convertToWav :: "(jsstring \<Rightarrow> Buffer) \<Rightarrow> jsstring \<Rightarrow> jsstring \<Rightarrow> error + Buffer" where
  "convertToWav from_base64 rawData mimeType =
     attempt (parseMimeType mimeType) (\<lambda>options.
       (let buffer = from_base64 rawData
        in attempt (createWavHeader (Buffer_length buffer) options) (\<lambda>wavHeader.
           Inr (Buffer_concat [wavHeader, buffer]))))"

section \<open>The driver\<close>

text \<open>
  The driver talks to the generation service, the file system and the encoder.  What
  these answer is a parameter of the model (\<open>externals\<close>); what the driver asks of them is
  recorded, in order, as a list of effects.  A run is that list together with the way
  \<open>main\<close> ends: normally, or with the error its promise is rejected with.
\<close>

datatype blob = Blob (data: "jsstring option") (mimeType: "jsstring option")

datatype part = Part (inlineData: "blob option") (partText: "jsstring option")

datatype effect =
    GenerateContent jsstring
  | WriteFile jsstring Buffer
  | RunFfmpeg jsstring jsstring
  | UnlinkSync jsstring
  | ConsoleLog
  | ConsoleError

record externals =
  generateContent :: "jsstring \<Rightarrow> error + part list"
  getExtension :: "jsstring \<Rightarrow> jsstring option"
  from_base64 :: "jsstring \<Rightarrow> Buffer"
  writeFile :: "jsstring \<Rightarrow> Buffer \<Rightarrow> error option"
  ffmpeg :: "jsstring \<Rightarrow> jsstring \<Rightarrow> error option"
  resolvedFfmpegPath :: jsstring

type_synonym 'a run = "effect list \<times> (error + 'a)"

definition andThen :: "'a run \<Rightarrow> ('a \<Rightarrow> 'b run) \<Rightarrow> 'b run" where
  "andThen r f =
     (case r of
        (es, Inl err) \<Rightarrow> (es, Inl err)
      | (es, Inr x) \<Rightarrow> (case f x of (es', res) \<Rightarrow> (es @ es', res)))"

definition saveBinaryFile :: "externals \<Rightarrow> jsstring \<Rightarrow> Buffer \<Rightarrow> unit run" where
  "saveBinaryFile ext fileName content =
     (case writeFile ext fileName content of
        Some err \<Rightarrow> ([WriteFile fileName content, ConsoleError], Inl err)
      | None \<Rightarrow> ([WriteFile fileName content], Inr ()))"

definition convertToOpus :: "externals \<Rightarrow> jsstring \<Rightarrow> jsstring \<Rightarrow> unit run" where
  "convertToOpus ext inputFile outputFile =
     (if resolvedFfmpegPath ext = []
      then ([], Inl (Error ''Cannot find ffmpeg. Install ffmpeg or set FFMPEG_PATH.''))
      else case ffmpeg ext inputFile outputFile of
             None \<Rightarrow> ([RunFfmpeg inputFile outputFile, ConsoleLog, UnlinkSync inputFile], Inr ())
           | Some err \<Rightarrow> ([RunFfmpeg inputFile outputFile, ConsoleError], Inl err))"

definition DEFAULT_TONE :: jsstring where
  "DEFAULT_TONE = str ''happy''"

definition buildPrompt :: "jsstring \<Rightarrow> jsstring option \<Rightarrow> jsstring" where
  "buildPrompt content tone =
     (let resolvedTone =
            (case tone of
               None \<Rightarrow> DEFAULT_TONE
             | Some t \<Rightarrow> if t \<noteq> [] \<and> trim t \<noteq> [] then trim t else DEFAULT_TONE)
      in str ''Read '' @ resolvedTone @ str '' tone, talk in spanish:'' @ [0x0A] @ content)"

definition missingContent :: error where
  \<open>missingContent =
     Error ''Missing content argument. Usage: npm run start -- "<content>" "<tone?>"''\<close>

definition getArgs :: "jsstring list \<Rightarrow> error + jsstring \<times> jsstring option" where
  "getArgs argv =
     (let contentArg = nth_opt argv 2;
          toneArg = nth_opt argv 3
      in case contentArg of
           None \<Rightarrow> Inl missingContent
         | Some c \<Rightarrow>
             if c = [] \<or> trim c = [] then Inl missingContent
             else Inr (trim c, map_option trim toneArg))"

definition orEmpty :: "jsstring option \<Rightarrow> jsstring" where
  "orEmpty v = (case v of None \<Rightarrow> [] | Some s \<Rightarrow> s)"

definition processPart :: "externals \<Rightarrow> part \<Rightarrow> unit run" where
  "processPart ext p =
     (case inlineData p of
        Some inl \<Rightarrow>
          (let fileExtension = getExtension ext (orEmpty (mimeType inl));
               buffer = Inr (from_base64 ext (orEmpty (data inl)));
               buffer =
                 (if fileExtension = None \<or> fileExtension = Some []
                  then convertToWav (from_base64 ext) (orEmpty (data inl)) (orEmpty (mimeType inl))
                  else buffer)
           in andThen ([], buffer) (\<lambda>buffer.
              andThen (saveBinaryFile ext (str ''temp_output.wav'') buffer) (\<lambda>_.
              convertToOpus ext (str ''temp_output.wav'') (str ''output.opus''))))
      | None \<Rightarrow>
          (case partText p of
             None \<Rightarrow> ([], Inr ())
           | Some t \<Rightarrow> if t \<noteq> [] then ([ConsoleLog], Inr ()) else ([], Inr ())))"

fun processParts :: "externals \<Rightarrow> part list \<Rightarrow> unit run" where
  "processParts ext [] = ([], Inr ())"
| "processParts ext (p # ps) = andThen (processPart ext p) (\<lambda>_. processParts ext ps)"

text \<open>
  \<open>main\<close>, given the command line (\<open>process.argv\<close>) and the value of the environment
  variable \<open>GEMINI_API_KEY\<close>.
\<close>

definition main :: "externals \<Rightarrow> jsstring list \<Rightarrow> jsstring option \<Rightarrow> unit run" where
  "main ext argv apiKey =
     andThen ([], getArgs argv) (\<lambda>(content, tone).
       if apiKey = None \<or> apiKey = Some []
       then ([], Inl (Error ''Missing GEMINI_API_KEY. Check your .env file.''))
       else andThen ([GenerateContent (buildPrompt content tone)],
                     generateContent ext (buildPrompt content tone)) (\<lambda>parts.
            processParts ext parts))"

section \<open>Vocabulary of the properties\<close>

text \<open>
  The range test of the integer writers, the bytes they store, and the header spelled out
  field by field.  \<open>le16\<close> and \<open>le32\<close> are the little-endian encodings of a natural
  number in 2 and 4 bytes; \<open>ascii\<close> is the byte sequence of an ASCII literal.
\<close>

definition in_range :: "number \<Rightarrow> number \<Rightarrow> bool" where
  "in_range hi v \<longleftrightarrow> \<not> js_less hi v \<and> \<not> js_less v (Fin 0)"

definition uint16_bytes :: "number \<Rightarrow> Buffer" where
  "uint16_bytes v = [ToUint8 v, ucast (drop_bit 8 (ToUint32 v))]"

definition uint32_bytes :: "number \<Rightarrow> Buffer" where
  "uint32_bytes v =
     [ToUint8 v, ucast (drop_bit 8 (ToUint32 v)),
      ucast (drop_bit 8 (drop_bit 8 (ToUint32 v))),
      ucast (drop_bit 8 (drop_bit 8 (drop_bit 8 (ToUint32 v))))]"

definition ascii :: "string \<Rightarrow> Buffer" where
  "ascii s = map of_char s"

definition byteRate_of :: "WavConversionOptions \<Rightarrow> number" where
  "byteRate_of options =
     js_div_literal
       (js_mul (js_mul (sampleRate options) (numChannels options)) (bitsPerSample options)) 8"

definition blockAlign_of :: "WavConversionOptions \<Rightarrow> number" where
  "blockAlign_of options =
     js_div_literal (js_mul (numChannels options) (bitsPerSample options)) 8"

definition fields_in_range :: "number \<Rightarrow> WavConversionOptions \<Rightarrow> bool" where
  "fields_in_range dataLength options \<longleftrightarrow>
     in_range (Fin 0xFFFFFFFF) (js_add (Fin 36) dataLength) \<and>
     in_range (Fin 0xFFFF) (numChannels options) \<and>
     in_range (Fin 0xFFFFFFFF) (sampleRate options) \<and>
     in_range (Fin 0xFFFFFFFF) (byteRate_of options) \<and>
     in_range (Fin 0xFFFF) (blockAlign_of options) \<and>
     in_range (Fin 0xFFFF) (bitsPerSample options) \<and>
     in_range (Fin 0xFFFFFFFF) dataLength"

text \<open>A field value that fits an unsigned integer of \<open>w\<close> bits.\<close>

definition fits_width :: "nat \<Rightarrow> number \<Rightarrow> bool" where
  "fits_width w v \<longleftrightarrow> (case v of Fin x \<Rightarrow> 0 \<le> x \<and> x \<le> 2 ^ w - 1 | _ \<Rightarrow> False)"

definition header_bytes :: "number \<Rightarrow> WavConversionOptions \<Rightarrow> Buffer" where
  "header_bytes dataLength options =
     ascii ''RIFF'' @ uint32_bytes (js_add (Fin 36) dataLength) @
     ascii ''WAVE'' @ ascii ''fmt '' @ uint32_bytes (Fin 16) @ uint16_bytes (Fin 1) @
     uint16_bytes (numChannels options) @ uint32_bytes (sampleRate options) @
     uint32_bytes (byteRate_of options) @ uint16_bytes (blockAlign_of options) @
     uint16_bytes (bitsPerSample options) @ ascii ''data'' @ uint32_bytes dataLength"

definition le16 :: "nat \<Rightarrow> Buffer" where
  "le16 n = [of_nat (n mod 256), of_nat (n div 256 mod 256)]"

definition le32 :: "nat \<Rightarrow> Buffer" where
  "le32 n =
     [of_nat (n mod 256), of_nat (n div 256 mod 256),
      of_nat (n div 65536 mod 256), of_nat (n div 16777216 mod 256)]"

text \<open>A buffer whose first bytes are \<open>pre\<close> and whose other \<open>n\<close> bytes are still zero.\<close>

definition filled :: "Buffer \<Rightarrow> nat \<Rightarrow> Buffer" where
  "filled pre n = pre @ replicate n 0"

text \<open>
  Strings of the properties: a non-empty run of decimal digits, a string that does not
  begin with a digit, the decimal writing of a natural number, and a string without its
  trailing white space.
\<close>

definition isDigits :: "jsstring \<Rightarrow> bool" where
  "isDigits ds \<longleftrightarrow> ds \<noteq> [] \<and> list_all isDigit ds"

definition nonDigitStart :: "jsstring \<Rightarrow> bool" where
  "nonDigitStart x \<longleftrightarrow> (case x of [] \<Rightarrow> True | c # _ \<Rightarrow> \<not> isDigit c)"

fun decimal :: "nat \<Rightarrow> jsstring" where
  "decimal n =
     (if n < 10 then [of_nat (48 + n)]
      else decimal (n div 10) @ [of_nat (48 + n mod 10)])"

declare decimal.simps [simp del]

definition trimEnd :: "jsstring \<Rightarrow> jsstring" where
  "trimEnd s = rev (dropWhile isWhiteSpace (rev s))"

text \<open>
  The parts of a descriptor string \<open>type/subtype;param;...\<close>: the subtype is the text
  between the first and the second \<open>/\<close> of the first segment, the parameters are the
  segments after the first \<open>;\<close>, and a parameter has a key and, after \<open>=\<close>, a value.
  \<open>has_L_digits\<close> says that the subtype is \<open>L\<close> followed by a digit; \<open>has_L_integer\<close>
  that it is \<open>L\<close> followed by an integer the way \<open>parseInt\<close> reads one: optional white
  space, an optional sign, then a digit.
\<close>

definition skip_sign :: "jsstring \<Rightarrow> jsstring" where
  "skip_sign t = (case t of [] \<Rightarrow> [] | c # rest \<Rightarrow> if c = 0x2B \<or> c = 0x2D then rest else t)"

definition integer_prefix :: "jsstring \<Rightarrow> bool" where
  "integer_prefix t \<longleftrightarrow>
     (case skip_sign (trimStart t) of [] \<Rightarrow> False | d # _ \<Rightarrow> isDigit d)"

definition subtype_of :: "jsstring \<Rightarrow> jsstring option" where
  "subtype_of s =
     (case map trim (split 0x3B s) of
        [] \<Rightarrow> None
      | fileType # _ \<Rightarrow> nth_opt (split 0x2F fileType) 1)"

definition has_L_digits :: "jsstring \<Rightarrow> bool" where
  "has_L_digits s \<longleftrightarrow>
     (case subtype_of s of
        Some (c # d # _) \<Rightarrow> c = 0x4C \<and> isDigit d
      | _ \<Rightarrow> False)"

definition has_L_integer :: "jsstring \<Rightarrow> bool" where
  "has_L_integer s \<longleftrightarrow>
     (case subtype_of s of
        Some (c # t) \<Rightarrow> c = 0x4C \<and> integer_prefix t
      | _ \<Rightarrow> False)"

definition params_of :: "jsstring \<Rightarrow> jsstring list" where
  "params_of s = tl (map trim (split 0x3B s))"

definition param_key :: "jsstring \<Rightarrow> jsstring option" where
  "param_key p = nth_opt (map trim (split 0x3D p)) 0"

definition param_value :: "jsstring \<Rightarrow> jsstring option" where
  "param_value p = nth_opt (map trim (split 0x3D p)) 1"

definition rate_params :: "jsstring \<Rightarrow> jsstring list" where
  "rate_params s = filter (\<lambda>p. param_key p = Some (str ''rate'')) (params_of s)"

text \<open>The descriptor before the loop over the parameters.\<close>

definition default_options :: WavConversionOptions where
  "default_options = \<lparr>numChannels = Fin 1, sampleRate = Fin 16000, bitsPerSample = Fin 16\<rparr>"

definition L_step :: "jsstring option \<Rightarrow> WavConversionOptions" where
  "L_step format =
     (case format of
        None \<Rightarrow> default_options
      | Some f \<Rightarrow>
          if f \<noteq> [] \<and> take 1 f = str ''L''
          then (let bits = parseInt (drop 1 f)
                in if \<not> isNaN bits then default_options\<lparr>bitsPerSample := bits\<rparr>
                   else default_options)
          else default_options)"

text \<open>
  Collaborators for trying the driver: a service that answers with no part, a media-type
  table that knows no extension, and a file system and an encoder that never fail.
\<close>

definition quiet :: externals where
  "quiet =
     \<lparr>generateContent = (\<lambda>prompt. Inr []),
      getExtension = (\<lambda>mimeType. None),
      from_base64 = (\<lambda>rawData. []),
      writeFile = (\<lambda>fileName content. None),
      ffmpeg = (\<lambda>inputFile outputFile. None),
      resolvedFfmpegPath = str ''ffmpeg''\<rparr>"

section \<open>Rounding to binary64\<close>

lemma bit_length_nonpos [simp]: "n \<le> 0 \<Longrightarrow> bit_length n = 0"
  by (simp add: bit_length.simps)

lemma bit_length_pos: "0 < n \<Longrightarrow> bit_length n = Suc (bit_length (n div 2))"
  by (subst bit_length.simps) simp

lemma bit_length_upper: "n < 2 ^ bit_length n"
proof (induction n rule: bit_length.induct)
  case (1 n)
  show ?case
  proof (cases "n \<le> 0")
    case True
    then have "n < 1" by simp
    then show ?thesis using True by simp
  next
    case False
    then have "n div 2 < 2 ^ bit_length (n div 2)"
      using 1 by simp
    then have "n < 2 * 2 ^ bit_length (n div 2)"
      by linarith
    then show ?thesis
      using False by (simp add: bit_length_pos)
  qed
qed

lemma bit_length_le: "n < 2 ^ k \<Longrightarrow> bit_length n \<le> k"
proof (induction n arbitrary: k rule: bit_length.induct)
  case (1 n)
  show ?case
  proof (cases "n \<le> 0")
    case True
    then show ?thesis by simp
  next
    case False
    then obtain j where k: "k = Suc j"
      using 1(2) by (cases k) auto
    then have "n div 2 < 2 ^ j"
      using 1(2) by simp
    then have "bit_length (n div 2) \<le> j"
      using 1(1) False by simp
    then show ?thesis
      using False k by (simp add: bit_length_pos)
  qed
qed

lemma bit_length_eqI:
  assumes "2 ^ k \<le> n" and "n < 2 ^ Suc k"
  shows "bit_length n = Suc k"
proof -
  have "(2::int) ^ k < 2 ^ bit_length n"
    using assms(1) bit_length_upper [of n] by linarith
  then have "k < bit_length n"
    by (simp add: power_strict_increasing_iff)
  moreover have "bit_length n \<le> Suc k"
    using assms(2) by (rule bit_length_le)
  ultimately show ?thesis by simp
qed

lemma bit_length_mult_pow2: "0 < n \<Longrightarrow> bit_length (n * 2 ^ k) = bit_length n + k"
proof (induction k)
  case 0
  then show ?case by simp
next
  case (Suc k)
  have "0 < n * 2 ^ Suc k"
    using Suc.prems by simp
  then have "bit_length (n * 2 ^ Suc k) = Suc (bit_length (n * 2 ^ Suc k div 2))"
    by (rule bit_length_pos)
  also have "n * 2 ^ Suc k div 2 = n * 2 ^ k"
    by simp
  finally show ?case
    using Suc by simp
qed

lemma floor_rat_numeral_divide [simp]:
  "\<lfloor>numeral a / numeral b :: rat\<rfloor> = numeral a div numeral b"
  by (metis floor_divide_of_int_eq of_int_numeral)

lemma round_half_even_of_int [simp]: "round_half_even (of_int m) = m"
  by (simp add: round_half_even_def)

lemma round_half_even_zero [simp]: "round_half_even 0 = 0"
  using round_half_even_of_int [of 0] by simp

lemma round_binary_zero [simp]: "round_binary p s e 0 = Fin 0"
  by (simp add: round_binary_def Let_def not_le)

lemma round_binary_not_NaN [simp]: "round_binary p s e x \<noteq> NaN"
  by (simp add: round_binary_def Let_def)

lemma fl_not_NaN [simp]: "fl x \<noteq> NaN"
  by (simp add: fl_def)

lemma isNaN_fl [simp]: "\<not> isNaN (fl x)"
  by (cases "fl x") simp_all

text \<open>Integers, on their own scale: the unit in the last place is \<open>2 ^ q\<close>.\<close>

lemma round_binary_of_int:
  assumes "n \<noteq> 0" and "p \<le> bit_length \<bar>n\<bar>"
  shows "round_binary p s e (of_int n) =
    (let q = bit_length \<bar>n\<bar> - p;
         r = round_half_even (of_int \<bar>n\<bar> / 2 ^ q) * 2 ^ q
     in if 2 ^ e \<le> r then (if 0 < n then PosInf else NegInf)
        else Fin (of_int (if 0 < n then r else - r)))"
proof -
  define b where "b = bit_length \<bar>n\<bar>"
  have a: "\<bar>rat_of_int n\<bar> * 2 ^ s = of_int (\<bar>n\<bar> * 2 ^ s)"
    by simp
  have bl: "bit_length \<lfloor>\<bar>rat_of_int n\<bar> * 2 ^ s\<rfloor> - p = (b - p) + s"
    unfolding a floor_of_int using assms by (simp add: bit_length_mult_pow2 b_def)
  have m: "\<bar>rat_of_int n\<bar> * 2 ^ s / 2 ^ (b - p + s) = of_int \<bar>n\<bar> / 2 ^ (b - p)"
    by (simp add: power_add)
  have r: "rat_of_int k * 2 ^ (b - p + s) / 2 ^ s = of_int (k * 2 ^ (b - p))" for k
    by (simp add: power_add)
  have e: "(2 ^ e \<le> rat_of_int (k * 2 ^ (b - p))) = (2 ^ e \<le> k * 2 ^ (b - p))" for k
    by (metis of_int_le_iff of_int_numeral of_int_power)
  show ?thesis
    unfolding round_binary_def Let_def bl m r e b_def [symmetric]
    by simp
qed

lemma round_binary_dyadic_exact:
  assumes k: "\<bar>k\<bar> < 2 ^ p" and j: "j \<le> s" and pe: "p \<le> e"
  shows "round_binary p s e (of_int k / 2 ^ j) = Fin (of_int k / 2 ^ j)"
proof (cases "k = 0")
  case True
  then show ?thesis by simp
next
  case False
  define x :: rat where "x = of_int k / 2 ^ j"
  define b where "b = bit_length \<bar>k\<bar>"
  have bp: "b \<le> p"
    unfolding b_def using k by (rule bit_length_le)
  have a: "\<bar>x\<bar> * 2 ^ s = of_int (\<bar>k\<bar> * 2 ^ (s - j))"
  proof -
    have "(2::rat) ^ s = 2 ^ (s - j) * 2 ^ j"
      using j by (simp flip: power_add)
    then show ?thesis
      by (simp add: x_def abs_divide)
  qed
  have bl: "bit_length \<lfloor>\<bar>x\<bar> * 2 ^ s\<rfloor> = b + (s - j)"
    unfolding a floor_of_int b_def using False by (simp add: bit_length_mult_pow2)
  define q where "q = b + (s - j) - p"
  have q: "q \<le> s - j"
    using bp by (simp add: q_def)
  have m: "\<bar>x\<bar> * 2 ^ s / 2 ^ q = of_int (\<bar>k\<bar> * 2 ^ (s - j - q))"
  proof -
    have "(2::rat) ^ (s - j) = 2 ^ (s - j - q) * 2 ^ q"
      using q by (simp flip: power_add)
    then show ?thesis
      unfolding a by simp
  qed
  have r: "of_int (round_half_even (\<bar>x\<bar> * 2 ^ s / 2 ^ q)) * 2 ^ q / 2 ^ s = \<bar>x\<bar>"
  proof -
    have "of_int (round_half_even (\<bar>x\<bar> * 2 ^ s / 2 ^ q)) = \<bar>x\<bar> * 2 ^ s / 2 ^ q"
      unfolding m round_half_even_of_int ..
    then show ?thesis by simp
  qed
  have small: "\<bar>x\<bar> < 2 ^ e"
  proof -
    have "(1::rat) \<le> 2 ^ j"
      by simp
    then have "\<bar>rat_of_int k\<bar> * 1 \<le> \<bar>rat_of_int k\<bar> * 2 ^ j"
      by (intro mult_left_mono) simp_all
    then have "\<bar>x\<bar> \<le> of_int \<bar>k\<bar>"
      by (simp add: x_def abs_divide divide_le_eq)
    also have "\<dots> < 2 ^ p"
      using k by (metis of_int_less_numeral_power_cancel_iff)
    also have "\<dots> \<le> (2::rat) ^ e"
      using pe by (simp add: power_increasing)
    finally show ?thesis .
  qed
  have "round_binary p s e x = Fin (if 0 < x then \<bar>x\<bar> else - \<bar>x\<bar>)"
    unfolding round_binary_def Let_def bl
    unfolding q_def [symmetric] r
    using small by (simp add: not_le)
  also have "(if 0 < x then \<bar>x\<bar> else - \<bar>x\<bar>) = x"
    by simp
  finally show ?thesis
    unfolding x_def .
qed

lemma fl_int_exact: "\<bar>k\<bar> < 2 ^ 53 \<Longrightarrow> fl (of_int k) = Fin (of_int k)"
  unfolding fl_def using round_binary_dyadic_exact [of k 53 0 1074 1024] by simp

lemma fl_nat_exact: "n < 2 ^ 53 \<Longrightarrow> fl (of_nat n) = Fin (of_nat n)"
  using fl_int_exact [of "int n"] by simp

lemma fl_eighth_exact: "\<bar>k\<bar> < 2 ^ 53 \<Longrightarrow> fl (of_int k / 8) = Fin (of_int k / 8)"
  unfolding fl_def using round_binary_dyadic_exact [of k 53 3 1074 1024] by simp


section \<open>Writing into a buffer\<close>

lemma list_update_Suc4:
  "Suc (Suc (Suc offset)) < length buf \<Longrightarrow>
   buf[offset := a, Suc offset := b, Suc (Suc offset) := c, Suc (Suc (Suc offset)) := d] =
   take offset buf @ a # b # c # d # drop (Suc (Suc (Suc (Suc offset)))) buf"
proof (induction offset arbitrary: buf)
  case 0
  then have "length buf = Suc (Suc (Suc (Suc (length buf - 4))))"
    by simp
  then obtain w x y z rest where "buf = w # x # y # z # rest"
    by (metis length_Suc_conv)
  then show ?case by simp
next
  case (Suc offset)
  then obtain x buf' where "buf = x # buf'"
    by (cases buf) auto
  then show ?case
    using Suc by simp
qed

lemma list_update_patch2:
  assumes "offset + 1 < length buf"
  shows "buf[offset := a, offset + 1 := b] = take offset buf @ [a, b] @ drop (offset + 2) buf"
proof -
  have "buf[offset := a, Suc offset := b] =
      take offset buf @ a # b # drop (Suc (Suc offset)) buf"
    using assms
  proof (induction offset arbitrary: buf)
    case 0
    then obtain w x rest where "buf = w # x # rest"
      by (cases buf; cases "tl buf") auto
    then show ?case by simp
  next
    case (Suc offset)
    then obtain x buf' where "buf = x # buf'"
      by (cases buf) auto
    then show ?case
      using Suc by simp
  qed
  then show ?thesis
    by (simp add: eval_nat_numeral)
qed

lemma list_update_patch4:
  assumes "offset + 3 < length buf"
  shows "buf[offset := a, offset + 1 := b, offset + 2 := c, offset + 3 := d] =
    take offset buf @ [a, b, c, d] @ drop (offset + 4) buf"
  using list_update_Suc4 [of offset buf a b c d] assms
  by (simp add: eval_nat_numeral)

lemma writeUInt16LE_eq:
  assumes "offset + 1 < length buf"
  shows "writeUInt16LE buf v offset =
    (if in_range (Fin 0xFFFF) v
     then Inr (take offset buf @ uint16_bytes v @ drop (offset + 2) buf)
     else Inl ERR_OUT_OF_RANGE)"
proof -
  have chk: "checkInt v (Fin 0) (Fin 0xFFFF) buf offset 1 =
      (if in_range (Fin 0xFFFF) v then None else Some ERR_OUT_OF_RANGE)"
    using assms by (simp add: checkInt_def in_range_def not_le)
  show ?thesis
    unfolding writeUInt16LE_def writeU_Int16LE_def chk list_update_patch2 [OF assms]
      uint16_bytes_def
    by simp
qed

lemma writeUInt32LE_eq:
  assumes "offset + 3 < length buf"
  shows "writeUInt32LE buf v offset =
    (if in_range (Fin 0xFFFFFFFF) v
     then Inr (take offset buf @ uint32_bytes v @ drop (offset + 4) buf)
     else Inl ERR_OUT_OF_RANGE)"
proof -
  have chk: "checkInt v (Fin 0) (Fin 0xFFFFFFFF) buf offset 3 =
      (if in_range (Fin 0xFFFFFFFF) v then None else Some ERR_OUT_OF_RANGE)"
    using assms by (simp add: checkInt_def in_range_def not_le)
  show ?thesis
    unfolding writeUInt32LE_def writeU_Int32LE_def chk Let_def list_update_patch4 [OF assms]
      uint32_bytes_def
    by simp
qed

lemma in_range_literals [simp]:
  "in_range (Fin 0xFFFFFFFF) (Fin 16)" "in_range (Fin 0xFFFF) (Fin 1)"
  by (simp_all add: in_range_def)

lemma length_ascii [simp]: "length (ascii s) = length s"
  by (simp add: ascii_def)

lemma length_uint16_bytes [simp]: "length (uint16_bytes v) = 2"
  by (simp add: uint16_bytes_def)

lemma length_uint32_bytes [simp]: "length (uint32_bytes v) = 4"
  by (simp add: uint32_bytes_def)

lemma alloc_filled: "alloc n = filled [] n"
  by (simp add: alloc_def filled_def)

lemma filled_0: "filled pre 0 = pre"
  by (simp add: filled_def)

lemma Buffer_write_filled:
  assumes "length pre = offset" and "length s \<le> n"
  shows "Buffer_write (filled pre n) s offset = Inr (filled (pre @ ascii s) (n - length s))"
  using assms by (simp add: Buffer_write_def filled_def ascii_def)

lemma writeUInt16LE_filled:
  assumes "length pre = offset" and "2 \<le> n"
  shows "writeUInt16LE (filled pre n) v offset =
    (if in_range (Fin 0xFFFF) v then Inr (filled (pre @ uint16_bytes v) (n - 2))
     else Inl ERR_OUT_OF_RANGE)"
proof -
  have "offset + 1 < length (filled pre n)"
    using assms by (simp add: filled_def)
  then show ?thesis
    using assms by (simp add: writeUInt16LE_eq) (simp add: filled_def)
qed

lemma writeUInt32LE_filled:
  assumes "length pre = offset" and "4 \<le> n"
  shows "writeUInt32LE (filled pre n) v offset =
    (if in_range (Fin 0xFFFFFFFF) v then Inr (filled (pre @ uint32_bytes v) (n - 4))
     else Inl ERR_OUT_OF_RANGE)"
proof -
  have "offset + 3 < length (filled pre n)"
    using assms by (simp add: filled_def)
  then show ?thesis
    using assms by (simp add: writeUInt32LE_eq) (simp add: filled_def)
qed

lemma attempt_Inr [simp]: "attempt (Inr x) f = f x"
  by (simp add: attempt_def)

lemma attempt_Inl [simp]: "attempt (Inl e) f = Inl e"
  by (simp add: attempt_def)

lemma attempt_if [simp]:
  "attempt (if c then Inr x else Inl e) f = (if c then f x else Inl e)"
  by simp


lemma createWavHeader_in_range:
  assumes "fields_in_range dataLength options"
  shows "createWavHeader dataLength options = Inr (header_bytes dataLength options)"
proof -
  have r: "in_range (Fin 0xFFFFFFFF) (js_add (Fin 36) dataLength)"
    "in_range (Fin 0xFFFF) (numChannels options)"
    "in_range (Fin 0xFFFFFFFF) (sampleRate options)"
    "in_range (Fin 0xFFFFFFFF) (byteRate_of options)"
    "in_range (Fin 0xFFFF) (blockAlign_of options)"
    "in_range (Fin 0xFFFF) (bitsPerSample options)"
    "in_range (Fin 0xFFFFFFFF) dataLength"
    using assms by (simp_all add: fields_in_range_def)
  show ?thesis
    unfolding createWavHeader_def Let_def alloc_filled
      byteRate_of_def [symmetric] blockAlign_of_def [symmetric]
    by (simp add: Buffer_write_filled writeUInt16LE_filled writeUInt32LE_filled filled_0
        header_bytes_def r)
qed


lemma createWavHeader_out_of_range:
  assumes "\<not> fields_in_range dataLength options"
  shows "createWavHeader dataLength options = Inl ERR_OUT_OF_RANGE"
proof -
  have "createWavHeader dataLength options =
      (if in_range (Fin 0xFFFFFFFF) (js_add (Fin 36) dataLength) then
       if in_range (Fin 0xFFFF) (numChannels options) then
       if in_range (Fin 0xFFFFFFFF) (sampleRate options) then
       if in_range (Fin 0xFFFFFFFF) (byteRate_of options) then
       if in_range (Fin 0xFFFF) (blockAlign_of options) then
       if in_range (Fin 0xFFFF) (bitsPerSample options) then
       if in_range (Fin 0xFFFFFFFF) dataLength then Inr (header_bytes dataLength options)
       else Inl ERR_OUT_OF_RANGE else Inl ERR_OUT_OF_RANGE else Inl ERR_OUT_OF_RANGE
       else Inl ERR_OUT_OF_RANGE else Inl ERR_OUT_OF_RANGE else Inl ERR_OUT_OF_RANGE
       else Inl ERR_OUT_OF_RANGE)"
    unfolding createWavHeader_def Let_def alloc_filled
      byteRate_of_def [symmetric] blockAlign_of_def [symmetric]
    by (simp add: Buffer_write_filled writeUInt16LE_filled writeUInt32LE_filled filled_0
        header_bytes_def split del: if_split cong: if_cong)
  then show ?thesis
    using assms by (simp add: fields_in_range_def)
qed

lemma createWavHeader_eq:
  "createWavHeader dataLength options =
    (if fields_in_range dataLength options then Inr (header_bytes dataLength options)
     else Inl ERR_OUT_OF_RANGE)"
  by (simp add: createWavHeader_in_range createWavHeader_out_of_range)

section \<open>The bytes of an integer field\<close>

lemma byte_of_nat_mod: "(word_of_nat (m mod 256) :: byte) = word_of_nat m"
  by (simp add: word_of_nat_eq_iff take_bit_eq_mod)

lemma drop_bit_word_of_nat:
  assumes "m < 2 ^ 32"
  shows "drop_bit k (word_of_nat m :: 32 word) = word_of_nat (drop_bit k m)"
proof -
  have "unat (word_of_nat m :: 32 word) = m"
    using assms by (simp add: unat_of_nat take_bit_nat_eq_self)
  then have "unat (drop_bit k (word_of_nat m :: 32 word)) = drop_bit k m"
    by (simp add: unat_drop_bit_eq)
  then show ?thesis
    by (metis of_nat_unat ucast_id)
qed

lemma ucast_word_of_nat: "(ucast (word_of_nat m :: 32 word) :: byte) = word_of_nat m"
  by (rule bit_word_eqI) (auto simp add: bit_simps)

lemma drop_bit_nat_8: "drop_bit 8 (m::nat) = m div 256"
  by (simp add: drop_bit_eq_div)

lemma js_trunc_nonneg: "0 \<le> x \<Longrightarrow> js_trunc x = \<lfloor>x\<rfloor>"
  by (simp add: js_trunc_def)

lemma uint32_bytes_Fin:
  assumes "0 \<le> x" and "x \<le> 4294967295"
  shows "uint32_bytes (Fin x) = le32 (nat \<lfloor>x\<rfloor>)"
proof -
  define m where "m = nat \<lfloor>x\<rfloor>"
  have fx: "\<lfloor>x\<rfloor> = int m"
    using assms(1) by (simp add: m_def)
  have m: "m < 2 ^ 32"
  proof -
    have "\<lfloor>x\<rfloor> \<le> 4294967295"
      using assms(2) by (simp add: floor_le_iff)
    then show ?thesis
      using fx by simp
  qed
  have m1: "m div 256 < 2 ^ 32" and m2: "m div 256 div 256 < 2 ^ 32"
    using m by simp_all
  have u8: "ToUint8 (Fin x) = word_of_nat m"
    using assms(1) by (simp add: js_trunc_nonneg fx)
  have u32: "ToUint32 (Fin x) = word_of_nat m"
    using assms(1) by (simp add: js_trunc_nonneg fx)
  have d2: "m div 256 div 256 = m div 65536"
    by (simp add: div_mult2_eq [symmetric])
  have d3: "m div 256 div 256 div 256 = m div 16777216"
    by (simp add: div_mult2_eq [symmetric])
  have b1: "ucast (drop_bit 8 (word_of_nat m :: 32 word)) = (word_of_nat (m div 256) :: byte)"
    by (simp add: drop_bit_word_of_nat [OF m] drop_bit_nat_8 ucast_word_of_nat)
  have b2: "ucast (drop_bit 8 (drop_bit 8 (word_of_nat m :: 32 word))) =
      (word_of_nat (m div 65536) :: byte)"
    unfolding drop_bit_word_of_nat [OF m] drop_bit_nat_8 drop_bit_word_of_nat [OF m1]
    by (simp add: ucast_word_of_nat d2)
  have b3: "ucast (drop_bit 8 (drop_bit 8 (drop_bit 8 (word_of_nat m :: 32 word)))) =
      (word_of_nat (m div 16777216) :: byte)"
    unfolding drop_bit_word_of_nat [OF m] drop_bit_nat_8 drop_bit_word_of_nat [OF m1]
      drop_bit_word_of_nat [OF m2]
    by (simp add: ucast_word_of_nat d3)
  show ?thesis
    unfolding uint32_bytes_def u8 u32 b1 b2 b3 m_def [symmetric]
    by (simp add: le32_def byte_of_nat_mod)
qed

lemma uint16_bytes_Fin:
  assumes "0 \<le> x" and "x \<le> 65535"
  shows "uint16_bytes (Fin x) = le16 (nat \<lfloor>x\<rfloor>)"
proof -
  define m where "m = nat \<lfloor>x\<rfloor>"
  have fx: "\<lfloor>x\<rfloor> = int m"
    using assms(1) by (simp add: m_def)
  have m: "m < 2 ^ 32"
  proof -
    have "\<lfloor>x\<rfloor> \<le> 65535"
      using assms(2) by (simp add: floor_le_iff)
    then show ?thesis
      using fx by simp
  qed
  have u8: "ToUint8 (Fin x) = word_of_nat m"
    using assms(1) by (simp add: js_trunc_nonneg fx)
  have u32: "ToUint32 (Fin x) = word_of_nat m"
    using assms(1) by (simp add: js_trunc_nonneg fx)
  have b1: "ucast (drop_bit 8 (word_of_nat m :: 32 word)) = (word_of_nat (m div 256) :: byte)"
    by (simp add: drop_bit_word_of_nat [OF m] drop_bit_nat_8 ucast_word_of_nat)
  show ?thesis
    unfolding uint16_bytes_def u8 u32 b1 m_def [symmetric]
    by (simp add: le16_def byte_of_nat_mod)
qed

lemma uint32_bytes_nat: "n \<le> 4294967295 \<Longrightarrow> uint32_bytes (Fin (of_nat n)) = le32 n"
  using uint32_bytes_Fin [of "of_nat n"] by simp

lemma uint16_bytes_nat: "n \<le> 65535 \<Longrightarrow> uint16_bytes (Fin (of_nat n)) = le16 n"
  using uint16_bytes_Fin [of "of_nat n"] by simp

lemma floor_nat_eighth: "\<lfloor>rat_of_nat n / 8\<rfloor> = int (n div 8)"
  using floor_divide_of_nat_eq [of n 8, where ?'a = rat] by simp

lemma uint32_bytes_eighth:
  "n \<le> 8 * 4294967295 \<Longrightarrow> uint32_bytes (Fin (of_nat n / 8)) = le32 (n div 8)"
  using uint32_bytes_Fin [of "of_nat n / 8"] by (simp add: floor_nat_eighth)

lemma uint16_bytes_eighth:
  "n \<le> 8 * 65535 \<Longrightarrow> uint16_bytes (Fin (of_nat n / 8)) = le16 (n div 8)"
  using uint16_bytes_Fin [of "of_nat n / 8"] by (simp add: floor_nat_eighth)

lemma in_range_Fin: "in_range (Fin hi) (Fin x) \<longleftrightarrow> 0 \<le> x \<and> x \<le> hi"
  by (auto simp add: in_range_def)

lemma js_mul_nat:
  "m * n < 2 ^ 53 \<Longrightarrow> js_mul (Fin (of_nat m)) (Fin (of_nat n)) = Fin (of_nat (m * n))"
  using fl_nat_exact [of "m * n"] by simp

lemma js_add_nat:
  "m + n < 2 ^ 53 \<Longrightarrow> js_add (Fin (of_nat m)) (Fin (of_nat n)) = Fin (of_nat (m + n))"
  using fl_nat_exact [of "m + n"] by simp

lemma js_div_8_nat:
  "n < 2 ^ 53 \<Longrightarrow> js_div_literal (Fin (of_nat n)) 8 = Fin (of_nat n / 8)"
  using fl_eighth_exact [of "int n"] by simp

lemma fl_0 [simp]: "fl 0 = Fin 0"
  by (simp add: fl_def)

lemma fl_1 [simp]: "fl 1 = Fin 1"
  using fl_int_exact [of 1] by simp

lemma length_le16 [simp]: "length (le16 n) = 2"
  by (simp add: le16_def)

lemma length_le32 [simp]: "length (le32 n) = 4"
  by (simp add: le32_def)

lemma length_header_bytes [simp]: "length (header_bytes dataLength options) = 44"
  by (simp add: header_bytes_def)

section \<open>The header synthesizer\<close>

text \<open>
  Claim C1, as amended.  For a payload length \<open>L\<close> and a descriptor of natural numbers
  \<open>c\<close> channels, \<open>s\<close> Hz and \<open>b\<close> bits whose header fields fit their widths
  (\<open>36 + L\<close>, \<open>s\<close> and the byte rate \<open>s * c * b / 8\<close> at most \<open>2 ^ 32 - 1\<close>; \<open>c\<close>, \<open>b\<close> and
  the block alignment \<open>c * b / 8\<close> at most \<open>2 ^ 16 - 1\<close>), \<open>createWavHeader\<close> returns the
  44 bytes \<open>RIFF\<close>, \<open>36 + L\<close>, \<open>WAVE\<close>, \<open>fmt \<close>, 16, 1, \<open>c\<close>, \<open>s\<close>, the byte rate,
  the block alignment, \<open>b\<close>, \<open>data\<close>, \<open>L\<close>, every number little-endian in 4 or 2
  bytes, the byte rate and the block alignment as the integer part of their quotient.
\<close>

theorem createWavHeader_layout:
  fixes L c s b :: nat
  assumes "36 + L \<le> 4294967295"
    and "c \<le> 65535" and "s \<le> 4294967295" and "b \<le> 65535"
    and "s * c * b \<le> 8 * 4294967295" and "c * b \<le> 8 * 65535"
  shows "createWavHeader (Fin (of_nat L))
      \<lparr>numChannels = Fin (of_nat c), sampleRate = Fin (of_nat s),
       bitsPerSample = Fin (of_nat b)\<rparr> =
    Inr (ascii ''RIFF'' @ le32 (36 + L) @ ascii ''WAVE'' @ ascii ''fmt '' @ le32 16 @
         le16 1 @ le16 c @ le32 s @ le32 (s * c * b div 8) @ le16 (c * b div 8) @
         le16 b @ ascii ''data'' @ le32 L)"
proof -
  define options where "options =
    \<lparr>numChannels = Fin (of_nat c), sampleRate = Fin (of_nat s), bitsPerSample = Fin (of_nat b)\<rparr>"
  have sc: "s * c < 2 ^ 53"
  proof -
    have "s * c \<le> 4294967295 * 65535"
      using assms(2,3) by (rule mult_le_mono [rotated])
    then show ?thesis by simp
  qed
  have add: "js_add (Fin 36) (Fin (of_nat L)) = Fin (of_nat (36 + L))"
    using js_add_nat [of 36 L] assms(1) by simp
  have m1: "js_mul (Fin (of_nat s)) (Fin (of_nat c)) = Fin (of_nat (s * c))"
    using sc by (rule js_mul_nat)
  have m2: "js_mul (Fin (of_nat (s * c))) (Fin (of_nat b)) = Fin (of_nat (s * c * b))"
    using assms(5) by (intro js_mul_nat) simp
  have d1: "js_div_literal (Fin (of_nat (s * c * b))) 8 = Fin (of_nat (s * c * b) / 8)"
    using assms(5) by (intro js_div_8_nat) simp
  have m3: "js_mul (Fin (of_nat c)) (Fin (of_nat b)) = Fin (of_nat (c * b))"
    using assms(6) by (intro js_mul_nat) simp
  have d2: "js_div_literal (Fin (of_nat (c * b))) 8 = Fin (of_nat (c * b) / 8)"
    using assms(6) by (intro js_div_8_nat) simp
  have byteRate: "byteRate_of options = Fin (of_nat (s * c * b) / 8)"
    by (simp only: byteRate_of_def options_def WavConversionOptions.select_convs m1 m2 d1)
  have blockAlign: "blockAlign_of options = Fin (of_nat (c * b) / 8)"
    by (simp only: blockAlign_of_def options_def WavConversionOptions.select_convs m3 d2)
  have "fields_in_range (Fin (of_nat L)) options"
    unfolding fields_in_range_def add byteRate blockAlign
    using assms by (simp add: in_range_Fin options_def) (simp add: divide_le_eq flip: of_nat_mult)
  then have "createWavHeader (Fin (of_nat L)) options = Inr (header_bytes (Fin (of_nat L)) options)"
    by (rule createWavHeader_in_range)
  also have "header_bytes (Fin (of_nat L)) options =
      ascii ''RIFF'' @ le32 (36 + L) @ ascii ''WAVE'' @ ascii ''fmt '' @ le32 16 @
      le16 1 @ le16 c @ le32 s @ le32 (s * c * b div 8) @ le16 (c * b div 8) @
      le16 b @ ascii ''data'' @ le32 L"
  proof -
    have e1: "uint32_bytes (Fin (of_nat (36 + L))) = le32 (36 + L)"
      using assms(1) by (rule uint32_bytes_nat)
    have e2: "uint32_bytes (Fin 16) = le32 16"
      using uint32_bytes_nat [of 16] by simp
    have e3: "uint16_bytes (Fin 1) = le16 1"
      using uint16_bytes_nat [of 1] by simp
    have e4: "uint16_bytes (Fin (of_nat c)) = le16 c"
      using assms(2) by (rule uint16_bytes_nat)
    have e5: "uint32_bytes (Fin (of_nat s)) = le32 s"
      using assms(3) by (rule uint32_bytes_nat)
    have e6: "uint32_bytes (Fin (of_nat (s * c * b) / 8)) = le32 (s * c * b div 8)"
      using assms(5) by (rule uint32_bytes_eighth)
    have e7: "uint16_bytes (Fin (of_nat (c * b) / 8)) = le16 (c * b div 8)"
      using assms(6) by (rule uint16_bytes_eighth)
    have e8: "uint16_bytes (Fin (of_nat b)) = le16 b"
      using assms(4) by (rule uint16_bytes_nat)
    have e9: "uint32_bytes (Fin (of_nat L)) = le32 L"
      using assms(1) by (intro uint32_bytes_nat) simp
    show ?thesis
      unfolding header_bytes_def add byteRate blockAlign
      by (simp only: options_def WavConversionOptions.select_convs
          e1 e2 e3 e4 e5 e6 e7 e8 e9)
  qed
  finally show ?thesis
    unfolding options_def .
qed


text \<open>
  The case \<open>L = 0\<close> with the default descriptor: chunk size 36, byte rate 32000,
  block alignment 2, data size 0.
\<close>

theorem createWavHeader_layout_witness:
  "createWavHeader (Fin 0) \<lparr>numChannels = Fin 1, sampleRate = Fin 16000, bitsPerSample = Fin 16\<rparr> =
    Inr [0x52, 0x49, 0x46, 0x46, 36, 0, 0, 0, 0x57, 0x41, 0x56, 0x45, 0x66, 0x6D, 0x74, 0x20,
         16, 0, 0, 0, 1, 0, 1, 0, 0x80, 0x3E, 0, 0, 0x00, 0x7D, 0, 0, 2, 0, 16, 0,
         0x64, 0x61, 0x74, 0x61, 0, 0, 0, 0]"
  using createWavHeader_layout [of 0 1 16000 16]
  by (simp add: ascii_def le16_def le32_def)

text \<open>
  Without the bounds the layout of C1 is not reached: a sample rate of 5000000000 Hz
  does not fit 4 bytes, and the call raises instead of returning 44 bytes.
\<close>

theorem createWavHeader_layout_counterexample:
  "createWavHeader (Fin 0)
     \<lparr>numChannels = Fin 1, sampleRate = Fin 5000000000, bitsPerSample = Fin 16\<rparr> =
   Inl ERR_OUT_OF_RANGE"
  by (rule createWavHeader_out_of_range) (simp add: fields_in_range_def in_range_Fin)

lemma default_fields_in_range:
  assumes "L \<le> 4294967259"
  shows "fields_in_range (Fin (of_nat L))
    \<lparr>numChannels = Fin 1, sampleRate = Fin 16000, bitsPerSample = Fin 16\<rparr>"
proof -
  have "js_mul (Fin 16000) (Fin 1) = Fin 16000"
    using js_mul_nat [of 16000 1] by simp
  moreover have "js_mul (Fin 16000) (Fin 16) = Fin 256000"
    using js_mul_nat [of 16000 16] by simp
  moreover have "js_div_literal (Fin 256000) 8 = Fin 32000"
    using js_div_8_nat [of 256000] by simp
  moreover have "js_mul (Fin 1) (Fin 16) = Fin 16"
    using js_mul_nat [of 1 16] by simp
  moreover have "js_div_literal (Fin 16) 8 = Fin 2"
    using js_div_8_nat [of 16] by simp
  moreover have "js_add (Fin 36) (Fin (of_nat L)) = Fin (of_nat (36 + L))"
    using js_add_nat [of 36 L] assms by simp
  ultimately show ?thesis
    using assms
    by (simp only: fields_in_range_def byteRate_of_def blockAlign_of_def
        WavConversionOptions.select_convs) (simp add: in_range_Fin)
qed

text \<open>The range test case by case: \<open>NaN\<close> passes, the infinities do not.\<close>

lemma in_range_cases:
  "in_range (Fin hi) v \<longleftrightarrow>
    (case v of NaN \<Rightarrow> True | Fin x \<Rightarrow> 0 \<le> x \<and> x \<le> hi | _ \<Rightarrow> False)"
  by (cases v) (auto simp add: in_range_def)

text \<open>A value that fits its width passes the range test of the writer.\<close>

lemma fits_width_in_range_16: "fits_width 16 v \<Longrightarrow> in_range (Fin 0xFFFF) v"
  by (cases v) (simp_all add: fits_width_def in_range_Fin)

lemma fits_width_in_range_32: "fits_width 32 v \<Longrightarrow> in_range (Fin 0xFFFFFFFF) v"
  by (cases v) (simp_all add: fits_width_def in_range_Fin)

text \<open>
  Claim C8.  When the seven numbers written into the header fit their fields (2 bytes
  for the channel count, the block alignment and the bits per sample; 4 bytes for the
  chunk size \<open>36 + dataLength\<close>, the sample rate, the byte rate and the data size),
  \<open>createWavHeader\<close> raises nothing and returns the 44 bytes of the header.
\<close>

theorem createWavHeader_no_failure:
  assumes "fits_width 32 (js_add (Fin 36) dataLength)"
    and "fits_width 16 (numChannels options)"
    and "fits_width 32 (sampleRate options)"
    and "fits_width 32 (byteRate_of options)"
    and "fits_width 16 (blockAlign_of options)"
    and "fits_width 16 (bitsPerSample options)"
    and "fits_width 32 dataLength"
  shows "createWavHeader dataLength options = Inr (header_bytes dataLength options) \<and>
    length (header_bytes dataLength options) = 44"
proof -
  have "fields_in_range dataLength options"
    unfolding fields_in_range_def
    using assms by (simp add: fits_width_in_range_16 fits_width_in_range_32)
  then show ?thesis
    by (simp add: createWavHeader_in_range)
qed

text \<open>The field values of the default descriptor with an empty payload.\<close>

lemma default_field_values:
  "js_add (Fin 36) (Fin 0) = Fin 36"
  "byteRate_of \<lparr>numChannels = Fin 1, sampleRate = Fin 16000, bitsPerSample = Fin 16\<rparr> =
     Fin 32000"
  "blockAlign_of \<lparr>numChannels = Fin 1, sampleRate = Fin 16000, bitsPerSample = Fin 16\<rparr> =
     Fin 2"
proof -
  show "js_add (Fin 36) (Fin 0) = Fin 36"
    using js_add_nat [of 36 0] by simp
  have "js_mul (Fin 16000) (Fin 1) = Fin 16000"
    using js_mul_nat [of 16000 1] by simp
  moreover have "js_mul (Fin 16000) (Fin 16) = Fin 256000"
    using js_mul_nat [of 16000 16] by simp
  moreover have "js_div_literal (Fin 256000) 8 = Fin 32000"
    using js_div_8_nat [of 256000] by simp
  ultimately show "byteRate_of
      \<lparr>numChannels = Fin 1, sampleRate = Fin 16000, bitsPerSample = Fin 16\<rparr> = Fin 32000"
    by (simp only: byteRate_of_def WavConversionOptions.select_convs)
  have "js_mul (Fin 1) (Fin 16) = Fin 16"
    using js_mul_nat [of 1 16] by simp
  moreover have "js_div_literal (Fin 16) 8 = Fin 2"
    using js_div_8_nat [of 16] by simp
  ultimately show "blockAlign_of
      \<lparr>numChannels = Fin 1, sampleRate = Fin 16000, bitsPerSample = Fin 16\<rparr> = Fin 2"
    by (simp only: blockAlign_of_def WavConversionOptions.select_convs)
qed

text \<open>The default descriptor: byte rate 32000 and block alignment 2 fit, and a header is returned.\<close>

theorem createWavHeader_no_failure_witness:
  "fits_width 32 (js_add (Fin 36) (Fin 0)) \<and>
   fits_width 32
     (byteRate_of \<lparr>numChannels = Fin 1, sampleRate = Fin 16000, bitsPerSample = Fin 16\<rparr>) \<and>
   fits_width 16
     (blockAlign_of \<lparr>numChannels = Fin 1, sampleRate = Fin 16000, bitsPerSample = Fin 16\<rparr>) \<and>
   createWavHeader (Fin 0)
     \<lparr>numChannels = Fin 1, sampleRate = Fin 16000, bitsPerSample = Fin 16\<rparr> =
   Inr (header_bytes (Fin 0)
     \<lparr>numChannels = Fin 1, sampleRate = Fin 16000, bitsPerSample = Fin 16\<rparr>) \<and>
   length (header_bytes (Fin 0)
     \<lparr>numChannels = Fin 1, sampleRate = Fin 16000, bitsPerSample = Fin 16\<rparr>) = 44"
proof -
  have f: "fits_width 32 (js_add (Fin 36) (Fin 0))"
    "fits_width 32
      (byteRate_of \<lparr>numChannels = Fin 1, sampleRate = Fin 16000, bitsPerSample = Fin 16\<rparr>)"
    "fits_width 16
      (blockAlign_of \<lparr>numChannels = Fin 1, sampleRate = Fin 16000, bitsPerSample = Fin 16\<rparr>)"
    unfolding default_field_values by (simp_all add: fits_width_def)
  have g: "fits_width 16 (Fin 1)" "fits_width 32 (Fin 16000)" "fits_width 16 (Fin 16)"
    "fits_width 32 (Fin 0)"
    by (simp_all add: fits_width_def)
  have "createWavHeader (Fin 0)
      \<lparr>numChannels = Fin 1, sampleRate = Fin 16000, bitsPerSample = Fin 16\<rparr> =
    Inr (header_bytes (Fin 0)
      \<lparr>numChannels = Fin 1, sampleRate = Fin 16000, bitsPerSample = Fin 16\<rparr>) \<and>
    length (header_bytes (Fin 0)
      \<lparr>numChannels = Fin 1, sampleRate = Fin 16000, bitsPerSample = Fin 16\<rparr>) = 44"
    using f g by (intro createWavHeader_no_failure) simp_all
  then show ?thesis
    using f by blast
qed

section \<open>Splitting, trimming and reading digits\<close>

lemma split_not_Nil [simp]: "split sep s \<noteq> []"
  by (induction s) (auto split: list.splits)

lemma split_no_sep: "sep \<notin> set s \<Longrightarrow> split sep s = [s]"
  by (induction s) auto

lemma split_append_sep:
  "sep \<notin> set a \<Longrightarrow> split sep (a @ sep # b) = a # split sep b"
  by (induction a) auto

lemma isDigit_not_isWhiteSpace: "isDigit c \<Longrightarrow> \<not> isWhiteSpace c"
  by (auto simp add: isDigit_def isWhiteSpace_def)

lemma trim_eq_trimEnd: "s \<noteq> [] \<Longrightarrow> \<not> isWhiteSpace (hd s) \<Longrightarrow> trim s = trimEnd s"
  by (cases s) (simp_all add: trim_def trimEnd_def)

lemma trimEnd_append:
  assumes "a \<noteq> []" and "\<not> isWhiteSpace (last a)"
  shows "trimEnd (a @ x) = a @ trimEnd x"
proof -
  have "dropWhile isWhiteSpace (rev x @ rev a) = dropWhile isWhiteSpace (rev x) @ rev a"
  proof (cases "\<forall>c\<in>set (rev x). isWhiteSpace c")
    case True
    have "dropWhile isWhiteSpace (rev a) = rev a"
      using assms by (cases "rev a") (simp_all add: last_rev [symmetric] hd_rev)
    moreover have "dropWhile isWhiteSpace (rev x) = []"
      using True by simp
    moreover have "dropWhile isWhiteSpace (rev x @ rev a) = dropWhile isWhiteSpace (rev a)"
      using True by (intro dropWhile_append2) simp
    ultimately show ?thesis
      by simp
  next
    case False
    then obtain c where "c \<in> set (rev x)" and "\<not> isWhiteSpace c"
      by blast
    then show ?thesis
      by (rule dropWhile_append1)
  qed
  then show ?thesis
    by (simp add: trimEnd_def)
qed

lemma trimEnd_prefix: "\<exists>ws. x = trimEnd x @ ws"
proof -
  have "rev x = takeWhile isWhiteSpace (rev x) @ dropWhile isWhiteSpace (rev x)"
    by simp
  then have "x = rev (dropWhile isWhiteSpace (rev x)) @ rev (takeWhile isWhiteSpace (rev x))"
    by (metis rev_append rev_rev_ident)
  then show ?thesis
    unfolding trimEnd_def by blast
qed

lemma set_trimEnd: "set (trimEnd x) \<subseteq> set x"
  using trimEnd_prefix [of x] by (metis Un_upper1 set_append)

lemma hd_trimEnd: "trimEnd x \<noteq> [] \<Longrightarrow> hd (trimEnd x) = hd x"
  using trimEnd_prefix [of x] by (metis hd_append2)

lemma isDigits_hd: "isDigits ds \<Longrightarrow> isDigit (hd ds)"
  by (cases ds) (simp_all add: isDigits_def)

lemma isDigits_last: "isDigits ds \<Longrightarrow> isDigit (last ds)"
  by (metis isDigits_def last_in_set list_all_iff)

lemma isDigits_notin: "isDigits ds \<Longrightarrow> \<not> isDigit c \<Longrightarrow> c \<notin> set ds"
  by (auto simp add: isDigits_def list_all_iff)

lemma nonDigitStart_iff: "nonDigitStart x \<longleftrightarrow> x = [] \<or> \<not> isDigit (hd x)"
  by (cases x) (simp_all add: nonDigitStart_def)

lemma nonDigitStart_Nil [simp]: "nonDigitStart []"
  by (simp add: nonDigitStart_def)

lemma nonDigitStart_trimEnd:
  assumes "nonDigitStart x"
  shows "nonDigitStart (trimEnd x)"
proof (cases "trimEnd x = []")
  case True
  then show ?thesis by (simp add: nonDigitStart_iff)
next
  case False
  then have "x \<noteq> []"
    by (auto simp add: trimEnd_def)
  then show ?thesis
    using assms False hd_trimEnd [of x] by (simp add: nonDigitStart_iff)
qed

lemma takeWhile_isDigits:
  assumes "isDigits ds" and "nonDigitStart x"
  shows "takeWhile isDigit (ds @ x) = ds"
proof -
  have "takeWhile isDigit x = []"
    using assms(2) by (cases x) (simp_all add: nonDigitStart_def)
  then show ?thesis
    using assms(1) by (simp add: isDigits_def list_all_iff takeWhile_append2)
qed

lemma parseInt_digits:
  assumes "isDigits ds" and "nonDigitStart x"
  shows "parseInt (ds @ x) = fl (of_int (mathInt ds))"
proof -
  obtain c cs where ds: "ds = c # cs"
    using assms(1) by (cases ds) (simp_all add: isDigits_def)
  have c: "isDigit c"
    using assms(1) ds by (simp add: isDigits_def)
  then have nws: "\<not> isWhiteSpace c"
    by (rule isDigit_not_isWhiteSpace)
  have sign: "c \<noteq> 0x2D" "c \<noteq> 0x2B"
    using c by (auto simp add: isDigit_def)
  have "takeWhile isDigit (c # cs @ x) = c # cs"
    using takeWhile_isDigits [OF assms] ds by simp
  then show ?thesis
    using nws sign ds by (simp add: parseInt_def trimStart_def Let_def del: takeWhile.simps)
qed

lemma trim_literal_digits:
  assumes "a \<noteq> []" and "\<not> isWhiteSpace (hd a)" and "isDigits ds"
  shows "trim (a @ ds @ x) = a @ ds @ trimEnd x"
proof -
  have "hd (a @ ds @ x) = hd a" "a @ ds @ x \<noteq> []"
    using assms(1) by simp_all
  then have "trim (a @ ds @ x) = trimEnd ((a @ ds) @ x)"
    using assms(2) by (simp add: trim_eq_trimEnd)
  also have "\<dots> = (a @ ds) @ trimEnd x"
  proof (rule trimEnd_append)
    show "a @ ds \<noteq> []"
      using assms(1) by simp
    have "ds \<noteq> []"
      using assms(3) by (simp add: isDigits_def)
    then have "last (a @ ds) = last ds"
      by simp
    then show "\<not> isWhiteSpace (last (a @ ds))"
      using isDigits_last [OF assms(3)] by (simp add: isDigit_not_isWhiteSpace)
  qed
  finally show ?thesis by simp
qed

lemma trim_digits:
  assumes "isDigits ds"
  shows "trim (ds @ x) = ds @ trimEnd x"
proof -
  have "ds \<noteq> []"
    using assms by (simp add: isDigits_def)
  moreover have "\<not> isWhiteSpace (hd ds)"
    using isDigits_hd [OF assms] by (rule isDigit_not_isWhiteSpace)
  moreover have "\<not> isWhiteSpace (last ds)"
    using isDigits_last [OF assms] by (rule isDigit_not_isWhiteSpace)
  ultimately show ?thesis
    by (simp add: trim_eq_trimEnd trimEnd_append)
qed

lemma trim_rate [simp]: "trim (str ''rate'') = str ''rate''"
  by (simp add: trim_def str_def isWhiteSpace_def)

lemma not_isDigit_seps [simp]:
  "\<not> isDigit 0x3B" "\<not> isDigit 0x2F" "\<not> isDigit 0x3D"
  by (simp_all add: isDigit_def)

lemma digit_code_unit:
  assumes "d < 10"
  shows "isDigit (of_nat (48 + d))" and "uint (of_nat (48 + d) :: code_unit) = 48 + int d"
proof -
  have "unat (of_nat (48 + d) :: code_unit) = (48 + d) mod 2 ^ LENGTH(16)"
    by (rule unat_of_nat)
  also have "\<dots> = 48 + d"
    using assms by simp
  finally have u: "unat (of_nat (48 + d) :: code_unit) = 48 + d" .
  show "isDigit (of_nat (48 + d))"
    unfolding isDigit_def word_le_nat_alt u using assms by simp
  show "uint (of_nat (48 + d) :: code_unit) = 48 + int d"
    using u by (metis of_nat_add of_nat_numeral uint_nat)
qed

lemma mathInt_snoc: "mathInt (ds @ [c]) = 10 * mathInt ds + (uint c - 0x30)"
  by (simp add: mathInt_def)

lemma decimal_digits: "isDigits (decimal n) \<and> mathInt (decimal n) = int n"
proof (induction n rule: decimal.induct)
  case (1 n)
  show ?case
  proof (cases "n < 10")
    case True
    then show ?thesis
      using digit_code_unit [of n]
      by (subst (1 2) decimal.simps) (simp add: isDigits_def mathInt_def)
  next
    case False
    have d: "n mod 10 < 10"
      by simp
    have "int n = int (10 * (n div 10) + n mod 10)"
      by simp
    then have n: "10 * int (n div 10) + int (n mod 10) = int n"
      by (simp only: of_nat_add of_nat_mult of_nat_numeral)
    have "isDigits (decimal (n div 10))" "mathInt (decimal (n div 10)) = int (n div 10)"
      using 1 False by simp_all
    then show ?thesis
      using False digit_code_unit [OF d] n
      by (subst (1 2) decimal.simps) (simp add: isDigits_def mathInt_snoc)
  qed
qed

lemma isNaN_parseInt: "isNaN (parseInt t) \<longleftrightarrow> \<not> integer_prefix t"
proof -
  have "takeWhile isDigit u = [] \<longleftrightarrow> (case u of [] \<Rightarrow> True | d # _ \<Rightarrow> \<not> isDigit d)" for u
    by (cases u) simp_all
  then show ?thesis
    by (auto simp add: parseInt_def integer_prefix_def skip_sign_def Let_def
        split: list.splits)
qed

section \<open>The parser, step by step\<close>

lemma rate_step_rate:
  assumes "isDigits dR" and "nonDigitStart y" and "0x3D \<notin> set y"
  shows "rate_step options (str ''rate='' @ dR @ y) =
    options\<lparr>sampleRate := fl (of_int (mathInt dR))\<rparr>"
proof -
  have eq: "0x3D \<notin> set (dR @ y)"
    using assms by (simp add: isDigits_notin)
  have "split 0x3D (str ''rate='' @ dR @ y) = [str ''rate'', dR @ y]"
    using split_append_sep [of "0x3D" "str ''rate''" "dR @ y"] split_no_sep [OF eq]
    by (simp add: str_def)
  moreover have "trim (dR @ y) = dR @ trimEnd y"
    using assms(1) by (rule trim_digits)
  moreover have "parseInt (dR @ trimEnd y) = fl (of_int (mathInt dR))"
    using assms(1) nonDigitStart_trimEnd [OF assms(2)] by (rule parseInt_digits)
  ultimately show ?thesis
    by (simp add: rate_step_def nth_opt_def ToString_def Let_def)
qed

lemma parseMimeType_L_rate:
  assumes dN: "isDigits dN" and dR: "isDigits dR"
    and x: "nonDigitStart x" "0x3B \<notin> set x" "0x2F \<notin> set x"
    and y: "nonDigitStart y" "0x3B \<notin> set y" "0x3D \<notin> set y"
  shows "parseMimeType (str ''audio/L'' @ dN @ x @ str '';rate='' @ dR @ y) =
    Inr \<lparr>numChannels = Fin 1, sampleRate = fl (of_int (mathInt dR)),
         bitsPerSample = fl (of_int (mathInt dN))\<rparr>"
proof -
  define x' where "x' = trimEnd x"
  define y' where "y' = trimEnd y"
  have x': "nonDigitStart x'" "0x3B \<notin> set x'" "0x2F \<notin> set x'"
    using x nonDigitStart_trimEnd [of x] set_trimEnd [of x] by (auto simp add: x'_def)
  have y': "nonDigitStart y'" "0x3B \<notin> set y'" "0x3D \<notin> set y'"
    using y nonDigitStart_trimEnd [of y] set_trimEnd [of y] by (auto simp add: y'_def)
  have s1: "0x3B \<notin> set (str ''audio/L'' @ dN @ x)"
    using dN x by (simp add: isDigits_notin str_def)
  have s2: "0x3B \<notin> set (str ''rate='' @ dR @ y)"
    using dR y by (simp add: isDigits_notin str_def)
  have whole: "str ''audio/L'' @ dN @ x @ str '';rate='' @ dR @ y =
      (str ''audio/L'' @ dN @ x) @ 0x3B # (str ''rate='' @ dR @ y)"
    by (simp add: str_def)
  have segs: "split 0x3B (str ''audio/L'' @ dN @ x @ str '';rate='' @ dR @ y) =
      [str ''audio/L'' @ dN @ x, str ''rate='' @ dR @ y]"
    unfolding whole using split_append_sep [OF s1] split_no_sep [OF s2] by simp
  have t1: "trim (str ''audio/L'' @ dN @ x) = str ''audio/L'' @ dN @ x'"
    unfolding x'_def using dN
    by (intro trim_literal_digits) (simp_all add: str_def isWhiteSpace_def)
  have t2: "trim (str ''rate='' @ dR @ y) = str ''rate='' @ dR @ y'"
    unfolding y'_def using dR
    by (intro trim_literal_digits) (simp_all add: str_def isWhiteSpace_def)
  have f2: "0x2F \<notin> set (str ''L'' @ dN @ x')"
    using dN x' by (simp add: isDigits_notin str_def)
  have fmt: "split 0x2F (str ''audio/L'' @ dN @ x') = [str ''audio'', str ''L'' @ dN @ x']"
    using split_append_sep [of "0x2F" "str ''audio''" "str ''L'' @ dN @ x'"]
      split_no_sep [OF f2]
    by (simp add: str_def)
  have bits: "parseInt (dN @ x') = fl (of_int (mathInt dN))"
    using dN x'(1) by (rule parseInt_digits)
  have rate: "rate_step options (str ''rate='' @ dR @ y') =
      options\<lparr>sampleRate := fl (of_int (mathInt dR))\<rparr>" for options
    using dR y'(1) y'(3) by (rule rate_step_rate)
  show ?thesis
    unfolding parseMimeType_def segs
    by (simp add: t1 t2 fmt nth_opt_def Let_def rate) (simp add: str_def bits)
qed

lemma parseMimeType_eq:
  "parseMimeType s = Inr (foldl rate_step (L_step (subtype_of s)) (params_of s))"
proof -
  obtain fileType params where "map trim (split 0x3B s) = fileType # params"
    by (cases "map trim (split 0x3B s)") simp_all
  then show ?thesis
    unfolding parseMimeType_def subtype_of_def params_of_def L_step_def default_options_def
      Let_def
    by simp
qed

lemma rate_step_eq:
  "rate_step options p =
    (if param_key p = Some (str ''rate'')
     then options\<lparr>sampleRate := parseInt (ToString (param_value p))\<rparr> else options)"
  by (simp add: rate_step_def param_key_def param_value_def Let_def)

lemma foldl_rate_step_numChannels [simp]:
  "numChannels (foldl rate_step options ps) = numChannels options"
  by (induction ps arbitrary: options) (simp_all add: rate_step_eq)

lemma foldl_rate_step_bitsPerSample [simp]:
  "bitsPerSample (foldl rate_step options ps) = bitsPerSample options"
  by (induction ps arbitrary: options) (simp_all add: rate_step_eq)

lemma foldl_rate_step_sampleRate:
  "sampleRate (foldl rate_step options ps) =
    (case filter (\<lambda>p. param_key p = Some (str ''rate'')) ps of
       [] \<Rightarrow> sampleRate options
     | rs \<Rightarrow> parseInt (ToString (param_value (last rs))))"
proof (induction ps rule: rev_induct)
  case Nil
  then show ?case by simp
next
  case (snoc p ps)
  then show ?case
    by (simp add: rate_step_eq split: list.splits)
qed

lemma foldl_rate_step_no_rate:
  "filter (\<lambda>p. param_key p = Some (str ''rate'')) ps = [] \<Longrightarrow>
   foldl rate_step options ps = options"
  by (induction ps arbitrary: options) (simp_all add: rate_step_eq split: if_splits)

lemma L_step_cases:
  "L_step format = default_options \<or>
   (\<exists>t. format = Some (0x4C # t) \<and> integer_prefix t \<and>
        L_step format = default_options\<lparr>bitsPerSample := parseInt t\<rparr>)"
proof (cases format)
  case None
  then show ?thesis by (simp add: L_step_def)
next
  case (Some f)
  show ?thesis
  proof (cases f)
    case Nil
    then show ?thesis using Some by (simp add: L_step_def)
  next
    case (Cons c t)
    then show ?thesis
      using Some by (auto simp add: L_step_def str_def Let_def isNaN_parseInt)
  qed
qed

lemma parseMimeType_Inr_numChannels:
  assumes "parseMimeType s = Inr d"
  shows "numChannels d = Fin 1"
proof -
  have "numChannels (L_step (subtype_of s)) = Fin 1"
    using L_step_cases [of "subtype_of s"] by (auto simp add: default_options_def)
  then show ?thesis
    using assms by (auto simp add: parseMimeType_eq)
qed

text \<open>Facts for evaluating the parser on a given string.\<close>

lemmas string_eval =
  str_def trim_def trimStart_def isWhiteSpace_def isDigit_def nth_opt_def subtype_of_def
  params_of_def param_key_def param_value_def rate_params_def has_L_digits_def
  has_L_integer_def integer_prefix_def skip_sign_def ToString_def

lemma decimal_16: "decimal 16 = str ''16''"
  by (simp add: decimal.simps str_def)

lemma decimal_24000: "decimal 24000 = str ''24000''"
  by (simp add: decimal.simps str_def)

lemma fl_2_53_plus_1: "fl 9007199254740993 = Fin 9007199254740992"
proof -
  have b: "bit_length 9007199254740993 = Suc 53"
    by (rule bit_length_eqI) simp_all
  have "fl (of_int 9007199254740993) = Fin 9007199254740992"
    unfolding fl_def
    by (subst round_binary_of_int) (simp_all add: b round_half_even_def Let_def)
  then show ?thesis by simp
qed

lemma mathInt_2_53_plus_1: "mathInt (str ''9007199254740993'') = 9007199254740993"
  by (simp add: mathInt_def str_def)

lemma isDigits_2_53_plus_1: "isDigits (str ''9007199254740993'')"
  by (simp add: isDigits_def str_def isDigit_def)

section \<open>Properties of the parser\<close>

text \<open>
  Claim C3, as amended.  For natural numbers \<open>N\<close> and \<open>R\<close> that a JavaScript number
  represents exactly (every integer below \<open>2 ^ 53\<close> is one, by \<open>fl_nat_exact\<close>), written in
  decimal digits, the parser maps \<open>audio/L<N>;rate=<R>\<close> to one channel, sample rate \<open>R\<close>
  and \<open>N\<close> bits per sample.
\<close>

theorem parseMimeType_audio_L_rate:
  fixes N R :: nat
  assumes "fl (of_nat N) = Fin (of_nat N)" and "fl (of_nat R) = Fin (of_nat R)"
  shows "parseMimeType (str ''audio/L'' @ decimal N @ str '';rate='' @ decimal R) =
    Inr \<lparr>numChannels = Fin 1, sampleRate = Fin (of_nat R), bitsPerSample = Fin (of_nat N)\<rparr>"
  using parseMimeType_L_rate [of "decimal N" "decimal R" "[]" "[]"] assms
  by (simp add: decimal_digits)

text \<open>The case \<open>audio/L16;rate=24000\<close>.\<close>

theorem parseMimeType_audio_L_rate_witness:
  "parseMimeType (str ''audio/L16;rate=24000'') =
    Inr \<lparr>numChannels = Fin 1, sampleRate = Fin 24000, bitsPerSample = Fin 16\<rparr>"
proof -
  have "fl (of_nat 16) = Fin (of_nat 16)" "fl (of_nat 24000) = Fin (of_nat 24000)"
    by (rule fl_nat_exact, simp)+
  then show ?thesis
    using parseMimeType_audio_L_rate [of 16 24000]
    by (simp add: decimal_16 decimal_24000) (simp add: str_def)
qed

text \<open>
  Without representability C3 fails: \<open>2 ^ 53 + 1\<close> is a positive integer written in
  decimal digits, and the sample rate returned for it is \<open>2 ^ 53\<close>.
\<close>

theorem parseMimeType_audio_L_rate_counterexample:
  "parseMimeType (str ''audio/L16;rate=9007199254740993'') =
    Inr \<lparr>numChannels = Fin 1, sampleRate = Fin 9007199254740992, bitsPerSample = Fin 16\<rparr>"
proof -
  have "isDigits (str ''16'')"
    by (simp add: isDigits_def str_def isDigit_def)
  moreover have "mathInt (str ''16'') = 16"
    by (simp add: mathInt_def str_def)
  moreover have "fl 16 = Fin 16"
    using fl_nat_exact [of 16] by simp
  ultimately show ?thesis
    using parseMimeType_L_rate [of "str ''16''" "str ''9007199254740993''" "[]" "[]"]
      isDigits_2_53_plus_1
    by (simp add: mathInt_2_53_plus_1 fl_2_53_plus_1) (simp add: str_def)
qed

text \<open>
  Claim C4.  When the descriptor string has a parameter with key \<open>rate\<close>, the sample rate
  returned is \<open>parseInt\<close> of the value of the last such parameter, whatever earlier ones
  said; when that value does not begin with an integer the sample rate is \<open>NaN\<close>, neither
  the default nor an error.
\<close>

theorem parseMimeType_last_rate:
  assumes "rate_params s \<noteq> []"
  shows "\<exists>d. parseMimeType s = Inr d \<and>
    sampleRate d = parseInt (ToString (param_value (last (rate_params s)))) \<and>
    (\<not> integer_prefix (ToString (param_value (last (rate_params s)))) \<longrightarrow>
       sampleRate d = NaN)"
proof -
  have "sampleRate (foldl rate_step (L_step (subtype_of s)) (params_of s)) =
      parseInt (ToString (param_value (last (rate_params s))))"
    using assms unfolding rate_params_def
    by (simp add: foldl_rate_step_sampleRate split: list.splits)
  moreover have "parseInt t = NaN" if "\<not> integer_prefix t" for t
    using that isNaN_parseInt [of t] by (cases "parseInt t") simp_all
  ultimately show ?thesis
    by (simp add: parseMimeType_eq)
qed

text \<open>Two \<open>rate\<close> parameters, the last one unparseable.\<close>

theorem parseMimeType_last_rate_witness:
  "\<exists>d. parseMimeType (str ''audio/L16;rate=8000; rate = abc'') = Inr d \<and> sampleRate d = NaN"
proof -
  have r: "rate_params (str ''audio/L16;rate=8000; rate = abc'') =
      [str ''rate=8000'', str ''rate = abc'']"
    by (simp add: string_eval)
  have v: "param_value (str ''rate = abc'') = Some (str ''abc'')"
    by (simp add: string_eval)
  have "\<not> integer_prefix (str ''abc'')"
    by (simp add: string_eval)
  then show ?thesis
    using parseMimeType_last_rate [of "str ''audio/L16;rate=8000; rate = abc''"]
    by (auto simp add: r v ToString_def)
qed

text \<open>
  Claim C5.  The parser returns a descriptor for every string and never raises.  The
  channel count is 1; the bit depth is the default 16 or \<open>parseInt\<close> of the text after
  the \<open>L\<close> of the subtype; the sample rate is the default 16000 or \<open>parseInt\<close> of the
  value of a \<open>rate\<close> parameter.
\<close>

theorem parseMimeType_total:
  "\<exists>d. parseMimeType s = Inr d \<and>
     numChannels d = Fin 1 \<and>
     (bitsPerSample d = Fin 16 \<or>
      (\<exists>t. subtype_of s = Some (0x4C # t) \<and> bitsPerSample d = parseInt t)) \<and>
     (sampleRate d = Fin 16000 \<or>
      (\<exists>p\<in>set (params_of s). param_key p = Some (str ''rate'') \<and>
         sampleRate d = parseInt (ToString (param_value p))))"
proof -
  define d where "d = foldl rate_step (L_step (subtype_of s)) (params_of s)"
  have p: "parseMimeType s = Inr d"
    by (simp add: parseMimeType_eq d_def)
  have n: "numChannels d = Fin 1"
    using L_step_cases [of "subtype_of s"] by (auto simp add: d_def default_options_def)
  have b: "bitsPerSample d = Fin 16 \<or>
      (\<exists>t. subtype_of s = Some (0x4C # t) \<and> bitsPerSample d = parseInt t)"
    using L_step_cases [of "subtype_of s"] by (auto simp add: d_def default_options_def)
  have r: "sampleRate d = Fin 16000 \<or>
      (\<exists>p\<in>set (params_of s). param_key p = Some (str ''rate'') \<and>
         sampleRate d = parseInt (ToString (param_value p)))"
  proof (cases "rate_params s = []")
    case True
    then have "d = L_step (subtype_of s)"
      by (simp add: d_def rate_params_def foldl_rate_step_no_rate)
    then show ?thesis
      using L_step_cases [of "subtype_of s"] by (auto simp add: default_options_def)
  next
    case False
    then have "last (rate_params s) \<in> set (rate_params s)"
      by simp
    then have "last (rate_params s) \<in> set (params_of s)"
      "param_key (last (rate_params s)) = Some (str ''rate'')"
      by (simp_all add: rate_params_def)
    moreover have "sampleRate d = parseInt (ToString (param_value (last (rate_params s))))"
      using False unfolding rate_params_def d_def
      by (simp add: foldl_rate_step_sampleRate split: list.splits)
    ultimately show ?thesis
      by blast
  qed
  show ?thesis
    using p n b r by blast
qed

text \<open>The empty string, which has neither a \<open>/\<close> nor an \<open>=\<close>.\<close>

theorem parseMimeType_total_witness:
  "\<exists>d. parseMimeType [] = Inr d \<and> numChannels d = Fin 1 \<and>
     bitsPerSample d = Fin 16 \<and> sampleRate d = Fin 16000"
proof -
  have "subtype_of [] = None" "params_of [] = []"
    by (simp_all add: string_eval)
  then show ?thesis
    using parseMimeType_total [of "[]"] by auto
qed

text \<open>
  Claim C6, as amended.  A descriptor string whose subtype is not \<open>L\<close> followed by an
  integer in the syntax of \<open>parseInt\<close> (optional white space, an optional sign, a digit)
  and that has no \<open>rate\<close> parameter is mapped to the default descriptor
  \<open>{1, 16000, 16}\<close>.
\<close>

theorem parseMimeType_defaults:
  assumes "\<not> has_L_integer s" and "rate_params s = []"
  shows "parseMimeType s =
    Inr \<lparr>numChannels = Fin 1, sampleRate = Fin 16000, bitsPerSample = Fin 16\<rparr>"
proof -
  have "L_step (subtype_of s) = default_options"
    using L_step_cases [of "subtype_of s"] assms(1) by (auto simp add: has_L_integer_def)
  then show ?thesis
    using assms(2)
    by (simp add: parseMimeType_eq rate_params_def foldl_rate_step_no_rate default_options_def)
qed

text \<open>A bare type with an unrecognised parameter, and the empty string.\<close>

theorem parseMimeType_defaults_witness:
  "parseMimeType (str ''audio/wav;codec=pcm'') =
     Inr \<lparr>numChannels = Fin 1, sampleRate = Fin 16000, bitsPerSample = Fin 16\<rparr> \<and>
   parseMimeType [] =
     Inr \<lparr>numChannels = Fin 1, sampleRate = Fin 16000, bitsPerSample = Fin 16\<rparr>"
proof -
  have "\<not> has_L_integer (str ''audio/wav;codec=pcm'')"
    "rate_params (str ''audio/wav;codec=pcm'') = []"
    "\<not> has_L_integer []" "rate_params [] = []"
    by (simp_all add: string_eval)
  then show ?thesis
    using parseMimeType_defaults [of "str ''audio/wav;codec=pcm''"] parseMimeType_defaults [of "[]"]
    by simp
qed

text \<open>
  With \<open>L<digits>\<close> read as \<open>L\<close> followed by a digit, C6 fails: \<open>audio/L-5\<close> has no such
  subtype and no \<open>rate\<close> parameter, and its bit depth is \<open>-5\<close>.
\<close>

theorem parseMimeType_defaults_counterexample:
  "\<not> has_L_digits (str ''audio/L-5'') \<and> rate_params (str ''audio/L-5'') = [] \<and>
   parseMimeType (str ''audio/L-5'') =
     Inr \<lparr>numChannels = Fin 1, sampleRate = Fin 16000, bitsPerSample = Fin (- 5)\<rparr>"
proof -
  have "parseInt (str ''-5'') = fl (- 5)"
    by (simp add: parseInt_def mathInt_def string_eval)
  also have "\<dots> = Fin (- 5)"
    using fl_int_exact [of "- 5"] by simp
  finally have b: "parseInt (str ''-5'') = Fin (- 5)" .
  have s: "subtype_of (str ''audio/L-5'') = Some (str ''L-5'')"
    by (simp add: string_eval)
  have "L_step (Some (str ''L-5'')) = default_options\<lparr>bitsPerSample := Fin (- 5)\<rparr>"
    using b by (simp add: L_step_def str_def)
  moreover have "params_of (str ''audio/L-5'') = []"
    by (simp add: string_eval)
  ultimately have "parseMimeType (str ''audio/L-5'') =
      Inr \<lparr>numChannels = Fin 1, sampleRate = Fin 16000, bitsPerSample = Fin (- 5)\<rparr>"
    by (simp add: parseMimeType_eq s default_options_def)
  moreover have "\<not> has_L_digits (str ''audio/L-5'')" "rate_params (str ''audio/L-5'') = []"
    by (simp_all add: string_eval)
  ultimately show ?thesis
    by simp
qed

text \<open>Claim C7.  Whatever the string, the descriptor returned has one channel.\<close>

theorem parseMimeType_numChannels:
  "\<exists>d. parseMimeType s = Inr d \<and> numChannels d = Fin 1"
  using parseMimeType_Inr_numChannels [of s] by (simp add: parseMimeType_eq)

text \<open>A string that tries to name a channel count.\<close>

theorem parseMimeType_numChannels_witness:
  "\<exists>d. parseMimeType (str ''audio/L16;channels=2'') = Inr d \<and> numChannels d = Fin 1"
  by (rule parseMimeType_numChannels)

text \<open>
  Claim C10, as amended.  The numeric fields are read by prefix, each on its own.  For
  every descriptor string: when the subtype is \<open>L\<close>, then a run of digits, then anything
  that does not begin with a digit, the bit depth is the number nearest to the value of
  the run; when the value of the last \<open>rate\<close> parameter is a run of digits followed by
  anything that does not begin with a digit, the sample rate is the number nearest to
  the value of the run.  That number is the value itself when the value is below
  \<open>2 ^ 53\<close>, and it is never \<open>NaN\<close>: with leading digits the bit depth is overridden and
  the sample rate is a number.
\<close>

theorem parseMimeType_leading_digits:
  "\<exists>d. parseMimeType s = Inr d \<and>
     (\<forall>dN x. subtype_of s = Some (0x4C # dN @ x) \<and> isDigits dN \<and> nonDigitStart x \<longrightarrow>
        bitsPerSample d = fl (of_int (mathInt dN)) \<and> bitsPerSample d \<noteq> NaN \<and>
        (\<bar>mathInt dN\<bar> < 2 ^ 53 \<longrightarrow> bitsPerSample d = Fin (of_int (mathInt dN)))) \<and>
     (\<forall>dR y. rate_params s \<noteq> [] \<and> param_value (last (rate_params s)) = Some (dR @ y) \<and>
        isDigits dR \<and> nonDigitStart y \<longrightarrow>
        sampleRate d = fl (of_int (mathInt dR)) \<and> sampleRate d \<noteq> NaN \<and>
        (\<bar>mathInt dR\<bar> < 2 ^ 53 \<longrightarrow> sampleRate d = Fin (of_int (mathInt dR))))"
proof -
  define d where "d = foldl rate_step (L_step (subtype_of s)) (params_of s)"
  have p: "parseMimeType s = Inr d"
    by (simp add: parseMimeType_eq d_def)
  have b: "bitsPerSample d = fl (of_int (mathInt dN))"
    if "subtype_of s = Some (0x4C # dN @ x)" and "isDigits dN" and "nonDigitStart x" for dN x
  proof -
    have "parseInt (dN @ x) = fl (of_int (mathInt dN))"
      using that(2,3) by (rule parseInt_digits)
    then show ?thesis
      using that(1) by (simp add: d_def L_step_def str_def Let_def)
  qed
  have r: "sampleRate d = fl (of_int (mathInt dR))"
    if "rate_params s \<noteq> []" and "param_value (last (rate_params s)) = Some (dR @ y)"
      and "isDigits dR" and "nonDigitStart y" for dR y
  proof -
    have "sampleRate d = parseInt (ToString (param_value (last (rate_params s))))"
      using that(1) unfolding rate_params_def d_def
      by (simp add: foldl_rate_step_sampleRate split: list.splits)
    also have "\<dots> = parseInt (dR @ y)"
      using that(2) by (simp add: ToString_def)
    also have "\<dots> = fl (of_int (mathInt dR))"
      using that(3,4) by (rule parseInt_digits)
    finally show ?thesis .
  qed
  have b': "bitsPerSample d = fl (of_int (mathInt dN)) \<and> bitsPerSample d \<noteq> NaN \<and>
      (\<bar>mathInt dN\<bar> < 2 ^ 53 \<longrightarrow> bitsPerSample d = Fin (of_int (mathInt dN)))"
    if "subtype_of s = Some (0x4C # dN @ x) \<and> isDigits dN \<and> nonDigitStart x" for dN x
    using b [of dN x] that by (simp add: fl_int_exact)
  have r': "sampleRate d = fl (of_int (mathInt dR)) \<and> sampleRate d \<noteq> NaN \<and>
      (\<bar>mathInt dR\<bar> < 2 ^ 53 \<longrightarrow> sampleRate d = Fin (of_int (mathInt dR)))"
    if "rate_params s \<noteq> [] \<and> param_value (last (rate_params s)) = Some (dR @ y) \<and>
      isDigits dR \<and> nonDigitStart y" for dR y
    using r [of dR y] that by (simp add: fl_int_exact)
  show ?thesis
    using p b' r' by blast
qed

text \<open>
  A subtype with a suffix and no parameter at all (\<open>audio/L24x\<close>), and a subtype and a
  rate that both carry a suffix (\<open>audio/L16x;rate=24000Hz\<close>).
\<close>

theorem parseMimeType_leading_digits_witness:
  "(\<exists>d. parseMimeType (str ''audio/L24x'') = Inr d \<and> bitsPerSample d = Fin 24) \<and>
   (\<exists>d. parseMimeType (str ''audio/L16x;rate=24000Hz'') = Inr d \<and>
      bitsPerSample d = Fin 16 \<and> sampleRate d = Fin 24000)"
proof -
  have d: "isDigits (str ''24'')" "isDigits (str ''16'')" "isDigits (str ''24000'')"
    by (simp_all add: isDigits_def str_def isDigit_def)
  have x: "nonDigitStart (str ''x'')" "nonDigitStart (str ''Hz'')"
    by (simp_all add: nonDigitStart_def str_def isDigit_def)
  have m: "mathInt (str ''24'') = 24" "mathInt (str ''16'') = 16"
    "mathInt (str ''24000'') = 24000"
    by (simp_all add: mathInt_def str_def)
  have s1: "subtype_of (str ''audio/L24x'') = Some (0x4C # str ''24'' @ str ''x'')"
    by (simp add: string_eval)
  have s2: "subtype_of (str ''audio/L16x;rate=24000Hz'') = Some (0x4C # str ''16'' @ str ''x'')"
    by (simp add: string_eval)
  have r2: "rate_params (str ''audio/L16x;rate=24000Hz'') = [str ''rate=24000Hz'']"
    by (simp add: string_eval)
  have v2: "param_value (str ''rate=24000Hz'') = Some (str ''24000'' @ str ''Hz'')"
    by (simp add: string_eval)
  have "\<exists>d. parseMimeType (str ''audio/L24x'') = Inr d \<and> bitsPerSample d = Fin 24"
    using parseMimeType_leading_digits [of "str ''audio/L24x''"] s1 d x
    by (auto simp add: m)
  moreover have "\<exists>d. parseMimeType (str ''audio/L16x;rate=24000Hz'') = Inr d \<and>
      bitsPerSample d = Fin 16 \<and> sampleRate d = Fin 24000"
  proof -
    obtain e where e: "parseMimeType (str ''audio/L16x;rate=24000Hz'') = Inr e"
      and b: "\<And>dN x. subtype_of (str ''audio/L16x;rate=24000Hz'') = Some (0x4C # dN @ x) \<Longrightarrow>
        isDigits dN \<Longrightarrow> nonDigitStart x \<Longrightarrow> \<bar>mathInt dN\<bar> < 2 ^ 53 \<Longrightarrow>
        bitsPerSample e = Fin (of_int (mathInt dN))"
      and r: "\<And>dR y. rate_params (str ''audio/L16x;rate=24000Hz'') \<noteq> [] \<Longrightarrow>
        param_value (last (rate_params (str ''audio/L16x;rate=24000Hz''))) = Some (dR @ y) \<Longrightarrow>
        isDigits dR \<Longrightarrow> nonDigitStart y \<Longrightarrow> \<bar>mathInt dR\<bar> < 2 ^ 53 \<Longrightarrow>
        sampleRate e = Fin (of_int (mathInt dR))"
      using parseMimeType_leading_digits [of "str ''audio/L16x;rate=24000Hz''"] by blast
    have "bitsPerSample e = Fin 16"
      using b [OF s2 d(2) x(1)] by (simp add: m)
    moreover have "sampleRate e = Fin 24000"
      using r [of "str ''24000''" "str ''Hz''"] d(3) x(2) by (simp add: r2 v2 m)
    ultimately show ?thesis
      using e by blast
  qed
  ultimately show ?thesis
    by blast
qed

text \<open>
  The value of the leading digits itself is not always what C10 says is stored: for the
  digits of \<open>2 ^ 53 + 1\<close> the bit depth is \<open>2 ^ 53\<close>.
\<close>

theorem parseMimeType_leading_digits_counterexample:
  "parseMimeType (str ''audio/L9007199254740993x;rate=24000Hz'') =
    Inr \<lparr>numChannels = Fin 1, sampleRate = Fin 24000,
         bitsPerSample = Fin 9007199254740992\<rparr>"
proof -
  have d: "isDigits (str ''24000'')"
    by (simp add: isDigits_def str_def isDigit_def)
  have x: "nonDigitStart (str ''x'')" "0x3B \<notin> set (str ''x'')" "0x2F \<notin> set (str ''x'')"
    by (simp_all add: nonDigitStart_def str_def isDigit_def)
  have y: "nonDigitStart (str ''Hz'')" "0x3B \<notin> set (str ''Hz'')" "0x3D \<notin> set (str ''Hz'')"
    by (simp_all add: nonDigitStart_def str_def isDigit_def)
  have m: "mathInt (str ''24000'') = 24000"
    by (simp add: mathInt_def str_def)
  have f: "fl 24000 = Fin 24000"
    using fl_nat_exact [of 24000] by simp
  show ?thesis
    using parseMimeType_L_rate [OF isDigits_2_53_plus_1 d x y]
    by (simp add: m f mathInt_2_53_plus_1 fl_2_53_plus_1) (simp add: str_def)
qed

section \<open>The container assembler\<close>

lemma createWavHeader_Inr_length:
  "createWavHeader dataLength options = Inr h \<Longrightarrow> length h = 44"
  by (auto simp add: createWavHeader_eq split: if_splits)

text \<open>
  Claim C2, as amended.  For a payload \<open>P\<close> and a descriptor \<open>D\<close> for which the
  synthesizer returns a header, the header followed by \<open>P\<close> has \<open>44 + length P\<close> bytes,
  its first 44 bytes are the header and the bytes from offset 44 on are \<open>P\<close>; and
  \<open>convertToWav\<close> returns exactly that sequence whenever \<open>P\<close> is what its payload decodes
  to and \<open>D\<close> is what its descriptor string parses to.  When the synthesizer raises,
  \<open>convertToWav\<close> raises the same error and assembles nothing.
\<close>

theorem convertToWav_layout:
  "(\<forall>h. createWavHeader (Buffer_length P) D = Inr h \<longrightarrow>
      length (Buffer_concat [h, P]) = 44 + length P \<and>
      take 44 (Buffer_concat [h, P]) = h \<and>
      drop 44 (Buffer_concat [h, P]) = P \<and>
      (\<forall>from_base64 rawData mimeType.
         from_base64 rawData = P \<and> parseMimeType mimeType = Inr D \<longrightarrow>
         convertToWav from_base64 rawData mimeType = Inr (Buffer_concat [h, P]))) \<and>
   (\<forall>err. createWavHeader (Buffer_length P) D = Inl err \<longrightarrow>
      (\<forall>from_base64 rawData mimeType.
         from_base64 rawData = P \<and> parseMimeType mimeType = Inr D \<longrightarrow>
         convertToWav from_base64 rawData mimeType = Inl err))"
proof (intro conjI allI impI)
  fix h
  assume h: "createWavHeader (Buffer_length P) D = Inr h"
  then have len: "length h = 44"
    by (rule createWavHeader_Inr_length)
  show "length (Buffer_concat [h, P]) = 44 + length P"
    using len by (simp add: Buffer_concat_def)
  show "take 44 (Buffer_concat [h, P]) = h"
    using len by (simp add: Buffer_concat_def)
  show "drop 44 (Buffer_concat [h, P]) = P"
    using len by (simp add: Buffer_concat_def)
  fix from_base64 :: "jsstring \<Rightarrow> Buffer" and rawData mimeType
  assume "from_base64 rawData = P \<and> parseMimeType mimeType = Inr D"
  then show "convertToWav from_base64 rawData mimeType = Inr (Buffer_concat [h, P])"
    using h by (simp add: convertToWav_def Let_def)
next
  fix err and from_base64 :: "jsstring \<Rightarrow> Buffer" and rawData mimeType
  assume "createWavHeader (Buffer_length P) D = Inl err"
    and "from_base64 rawData = P \<and> parseMimeType mimeType = Inr D"
  then show "convertToWav from_base64 rawData mimeType = Inl err"
    by (simp add: convertToWav_def Let_def)
qed

text \<open>The empty descriptor string gives the default descriptor.\<close>

lemma parseMimeType_empty:
  "parseMimeType [] =
    Inr \<lparr>numChannels = Fin 1, sampleRate = Fin 16000, bitsPerSample = Fin 16\<rparr>"
proof -
  have "subtype_of [] = None" "params_of [] = []"
    by (simp_all add: string_eval)
  then show ?thesis
    by (simp add: parseMimeType_eq L_step_def default_options_def)
qed

text \<open>A payload of two bytes under the default descriptor.\<close>

theorem convertToWav_layout_witness:
  "\<exists>h. createWavHeader (Buffer_length [1, 2])
          \<lparr>numChannels = Fin 1, sampleRate = Fin 16000, bitsPerSample = Fin 16\<rparr> = Inr h \<and>
       convertToWav (\<lambda>rawData. [1, 2]) [] [] = Inr (Buffer_concat [h, [1, 2]]) \<and>
       length (Buffer_concat [h, [1, 2]]) = 46 \<and>
       take 44 (Buffer_concat [h, [1, 2]]) = h \<and>
       drop 44 (Buffer_concat [h, [1, 2]]) = [1, 2]"
proof -
  have "fields_in_range (Buffer_length [1, 2])
      \<lparr>numChannels = Fin 1, sampleRate = Fin 16000, bitsPerSample = Fin 16\<rparr>"
    using default_fields_in_range [of 2] by (simp add: Buffer_length_def)
  then obtain h where h: "createWavHeader (Buffer_length [1, 2])
      \<lparr>numChannels = Fin 1, sampleRate = Fin 16000, bitsPerSample = Fin 16\<rparr> = Inr h"
    by (simp add: createWavHeader_in_range)
  show ?thesis
    using h parseMimeType_empty
      convertToWav_layout [of "[1, 2]"
        "\<lparr>numChannels = Fin 1, sampleRate = Fin 16000, bitsPerSample = Fin 16\<rparr>"]
    by auto
qed

text \<open>A descriptor string whose sample rate does not fit 4 bytes.\<close>

lemma parseMimeType_rate_5000000000:
  "parseMimeType (str ''audio/L16;rate=5000000000'') =
    Inr \<lparr>numChannels = Fin 1, sampleRate = Fin 5000000000, bitsPerSample = Fin 16\<rparr>"
proof -
  have d: "isDigits (str ''16'')" "isDigits (str ''5000000000'')"
    by (simp_all add: isDigits_def str_def isDigit_def)
  have m: "mathInt (str ''16'') = 16" "mathInt (str ''5000000000'') = 5000000000"
    by (simp_all add: mathInt_def str_def)
  have f: "fl 16 = Fin 16" "fl 5000000000 = Fin 5000000000"
    using fl_nat_exact [of 16] fl_nat_exact [of 5000000000] by simp_all
  show ?thesis
    using parseMimeType_L_rate [of "str ''16''" "str ''5000000000''" "[]" "[]"] d
    by (simp add: m f) (simp add: str_def)
qed

text \<open>
  Without the condition on the synthesizer C2 fails: for the descriptor of
  \<open>audio/L16;rate=5000000000\<close> no header exists, and \<open>convertToWav\<close> returns no byte
  sequence of 44 bytes and the payload but raises.
\<close>

theorem convertToWav_layout_counterexample:
  "parseMimeType (str ''audio/L16;rate=5000000000'') =
     Inr \<lparr>numChannels = Fin 1, sampleRate = Fin 5000000000, bitsPerSample = Fin 16\<rparr> \<and>
   convertToWav (\<lambda>rawData. []) [] (str ''audio/L16;rate=5000000000'') = Inl ERR_OUT_OF_RANGE"
proof -
  have "createWavHeader (Buffer_length [])
      \<lparr>numChannels = Fin 1, sampleRate = Fin 5000000000, bitsPerSample = Fin 16\<rparr> =
    Inl ERR_OUT_OF_RANGE"
    by (rule createWavHeader_out_of_range) (simp add: fields_in_range_def in_range_Fin)
  then show ?thesis
    by (simp add: convertToWav_def parseMimeType_rate_5000000000)
qed

section \<open>Properties of the driver\<close>

text \<open>
  Claim C9.  When the content argument is missing or blank after trimming, or when the
  credential variable is unset or empty, \<open>main\<close> ends with an error and without any effect:
  no request to the generation service, no file written.
\<close>

theorem main_fails_fast:
  assumes "nth_opt argv 2 = None \<or> (\<exists>c. nth_opt argv 2 = Some c \<and> trim c = []) \<or>
    apiKey = None \<or> apiKey = Some []"
  shows "\<exists>msg. main ext argv apiKey = ([], Inl (Error msg))"
proof (cases "getArgs argv")
  case (Inl e)
  then have "e = missingContent"
    by (auto simp add: getArgs_def Let_def split: option.splits if_splits)
  then show ?thesis
    using Inl by (simp add: main_def andThen_def missingContent_def)
next
  case (Inr a)
  then have "apiKey = None \<or> apiKey = Some []"
    using assms by (auto simp add: getArgs_def Let_def split: option.splits if_splits)
  then show ?thesis
    using Inr by (auto simp add: main_def andThen_def split: prod.splits)
qed

text \<open>No content argument, a blank one, and no credential.\<close>

theorem main_fails_fast_witness:
  "(\<exists>msg. main quiet [str ''node'', str ''TTS-gemini.ts''] (Some (str ''key'')) =
      ([], Inl (Error msg))) \<and>
   (\<exists>msg. main quiet [str ''node'', str ''TTS-gemini.ts'', str ''   ''] (Some (str ''key'')) =
      ([], Inl (Error msg))) \<and>
   (\<exists>msg. main quiet [str ''node'', str ''TTS-gemini.ts'', str ''hola''] None =
      ([], Inl (Error msg)))"
proof -
  have "nth_opt [str ''node'', str ''TTS-gemini.ts''] 2 = None"
    by (simp add: nth_opt_def)
  moreover have "nth_opt [str ''node'', str ''TTS-gemini.ts'', str ''   ''] 2 = Some (str ''   '')"
    "trim (str ''   '') = []"
    by (simp_all add: nth_opt_def trim_def str_def isWhiteSpace_def)
  ultimately show ?thesis
    using main_fails_fast [of "[str ''node'', str ''TTS-gemini.ts'']" "Some (str ''key'')" quiet]
      main_fails_fast [of "[str ''node'', str ''TTS-gemini.ts'', str ''   '']"
        "Some (str ''key'')" quiet]
      main_fails_fast [of "[str ''node'', str ''TTS-gemini.ts'', str ''hola'']" None quiet]
    by simp
qed

end
